theory Spec2Isabelle
  imports Complex_Main "HOL-Library.AList"
begin

section \<open>The metrics log\<close>

text \<open>
  \<^verbatim>\<open>report-generator.js\<close> reads \<^verbatim>\<open>k6-output.json\<close>, splits it at newlines and
  handles every line inside one \<^verbatim>\<open>try\<close>/\<^verbatim>\<open>catch\<close>. The model starts after
  \<^verbatim>\<open>JSON.parse\<close> and \<^verbatim>\<open>new Date\<close>: a line is what the callback can tell apart.

  Conventions of the embedding.
  \<^item> A finite JavaScript number is a rational. An addition or a multiplication whose
    exact result leaves the range of the doubles gives an infinity, as in IEEE 754;
    rounding to the nearest double is not modelled. \<^verbatim>\<open>Math.floor(len * 0.9)\<close>,
    \<^verbatim>\<open>0.95\<close> and \<^verbatim>\<open>0.99\<close> are the floors of the exact products (the double products
    floor to the same integers).
  \<^item> A plain object used as a dictionary is an association list of its own properties in
    insertion order (\<^const>\<open>AList.update\<close> keeps the place of a key that is already
    there, as a property assignment does). Reading a key that is not an own property
    finds the members \<^verbatim>\<open>Object.prototype\<close> gives every object; each read and write of
    the source says below what it does for such a key.
  \<^item> A thrown exception is \<^term>\<open>Inl e\<close>; \<^verbatim>\<open>console.error\<close> calls are counted.
  \<^item> Sample values are finite numbers, timestamps are valid dates and the fields of a
    \<^verbatim>\<open>Metric\<close> record are strings, as the load generator writes them; the script runs
    in sloppy mode (a CommonJS module).
  \<^item> The report is the sequence of the holes of the template literal; the charts are
    drawn by the browser from the arrays embedded in the script, of which the
    requests-per-second loop is modelled.
\<close>

type_synonym tags = "string \<rightharpoonup> string"

text \<open>
  A \<^verbatim>\<open>Point\<close> record \<^verbatim>\<open>{"type":"Point","metric":m,"data":{"time","value","tags"}}\<close>.
  \<open>data_time\<close> is \<^verbatim>\<open>new Date(data.data.time).getTime()\<close> in milliseconds, and
  \<open>None\<close> when \<^verbatim>\<open>data.data.time\<close> is missing (falsy); \<open>data_tags\<close> is \<open>None\<close>
  when \<^verbatim>\<open>data.data.tags\<close> is missing or null.
\<close>

record point =
  metric :: string
  data_time :: "int option"
  data_value :: rat
  data_tags :: "tags option"

text \<open>
  The lines the callback distinguishes:
  \<^item> \<open>Blank\<close>: \<^verbatim>\<open>line.trim()\<close> is empty;
  \<^item> \<open>Garbage\<close>: \<^verbatim>\<open>JSON.parse\<close> throws;
  \<^item> \<open>Malformed\<close>: JSON on which a property read throws (\<^verbatim>\<open>null\<close>, or a
    \<^verbatim>\<open>Point\<close>/\<^verbatim>\<open>Metric\<close> record with no \<^verbatim>\<open>data\<close> object);
  \<^item> \<open>Other\<close>: JSON whose \<^verbatim>\<open>type\<close> is neither \<^verbatim>\<open>'Metric'\<close> nor \<^verbatim>\<open>'Point'\<close>;
  \<^item> \<open>Metric name type contains\<close> and \<open>Point p\<close>: the two record kinds.
\<close>

datatype line =
    Blank
  | Garbage
  | Malformed
  | Other
  | Metric string string string
  | Point point

datatype error = TypeError

section \<open>JavaScript numbers and objects\<close>

text \<open>
  The result of an arithmetic operation: a finite number, an infinity, or \<open>NaN\<close>.
  \<open>NaN\<close> is also what \<^verbatim>\<open>undefined\<close>, a missing field of \<^verbatim>\<open>stats\<close>, turns into in a
  comparison or an arithmetic operation.
\<close>

datatype jsnum = NaN | Num rat | PosInf | NegInf

text \<open>
  The largest double is \<open>2^1024 - 2^971\<close>; an exact result of magnitude
  \<open>2^1024 - 2^970\<close> or more rounds to an infinity.
\<close>

definition overflowBound :: rat where
  "overflowBound = 2 ^ 1024 - 2 ^ 970"

definition fl :: "rat \<Rightarrow> jsnum" where
  "fl x = (if overflowBound \<le> x then PosInf else if x \<le> - overflowBound then NegInf else Num x)"

text \<open>The infinity of the sign of \<open>s\<close>; \<open>NaN\<close> for zero.\<close>

definition inf_of :: "rat \<Rightarrow> jsnum" where
  "inf_of s = (if 0 < s then PosInf else if s < 0 then NegInf else NaN)"

text \<open>\<^verbatim>\<open>a + b\<close> and \<^verbatim>\<open>a * b\<close>.\<close>

fun plus_js :: "jsnum \<Rightarrow> jsnum \<Rightarrow> jsnum" where
  "plus_js (Num x) (Num y) = fl (x + y)"
| "plus_js NaN b = NaN"
| "plus_js a NaN = NaN"
| "plus_js PosInf NegInf = NaN"
| "plus_js NegInf PosInf = NaN"
| "plus_js PosInf b = PosInf"
| "plus_js a PosInf = PosInf"
| "plus_js NegInf b = NegInf"
| "plus_js a NegInf = NegInf"

fun times_js :: "jsnum \<Rightarrow> jsnum \<Rightarrow> jsnum" where
  "times_js (Num x) (Num y) = fl (x * y)"
| "times_js NaN b = NaN"
| "times_js a NaN = NaN"
| "times_js PosInf (Num y) = inf_of y"
| "times_js NegInf (Num y) = inf_of (- y)"
| "times_js (Num x) PosInf = inf_of x"
| "times_js (Num x) NegInf = inf_of (- x)"
| "times_js PosInf PosInf = PosInf"
| "times_js NegInf NegInf = PosInf"
| "times_js PosInf NegInf = NegInf"
| "times_js NegInf PosInf = NegInf"

text \<open>\<^verbatim>\<open>a / b\<close> for a finite non-zero \<open>b\<close>, and \<^verbatim>\<open>a < b\<close> for a finite \<open>b\<close>.\<close>

fun over :: "jsnum \<Rightarrow> rat \<Rightarrow> jsnum" where
  "over NaN b = NaN"
| "over (Num x) b = Num (x / b)"
| "over PosInf b = inf_of b"
| "over NegInf b = inf_of (- b)"

fun lt :: "jsnum \<Rightarrow> rat \<Rightarrow> bool" where
  "lt NaN b = False"
| "lt (Num x) b = (x < b)"
| "lt PosInf b = False"
| "lt NegInf b = True"

text \<open>\<^verbatim>\<open>a <= b\<close>: false when either side is \<open>NaN\<close>.\<close>

fun le_js :: "jsnum \<Rightarrow> jsnum \<Rightarrow> bool" where
  "le_js (Num x) (Num y) = (x \<le> y)"
| "le_js NaN b = False"
| "le_js a NaN = False"
| "le_js NegInf b = True"
| "le_js a PosInf = True"
| "le_js PosInf b = False"
| "le_js a NegInf = False"

text \<open>
  The property names every plain object inherits from \<^verbatim>\<open>Object.prototype\<close>. All are
  functions, except \<^verbatim>\<open>__proto__\<close>, an accessor: reading it gives the prototype, an
  object; assigning an object to it replaces the prototype and assigning anything else
  does nothing. None of them is an own property of a fresh \<^verbatim>\<open>{}\<close>.
\<close>

definition protoKeys :: "string list" where
  "protoKeys =
     [''constructor'', ''__defineGetter__'', ''__defineSetter__'', ''hasOwnProperty'',
      ''__lookupGetter__'', ''__lookupSetter__'', ''isPrototypeOf'',
      ''propertyIsEnumerable'', ''toString'', ''valueOf'', ''__proto__'',
      ''toLocaleString'']"

section \<open>Aggregate state\<close>

text \<open>
  The object literal of lines 156-167. \<open>avg\<close> and \<open>med\<close> come out of additions and can
  be infinite; the other fields are elements of the array.
\<close>

record stats =
  min_stat :: rat
  max_stat :: rat
  avg :: jsnum
  med :: jsnum
  p90 :: rat
  p95 :: rat
  p99 :: rat
  count :: nat

text \<open>
  An entry of \<^verbatim>\<open>metrics\<close>; \<open>stats = None\<close> is the empty object \<^verbatim>\<open>{}\<close>. \<open>unit\<close> is
  \<open>None\<close> when \<^verbatim>\<open>getMetricUnit\<close> returned no string.
\<close>

record metric_entry =
  mtype :: string
  contains :: string
  values_m :: "rat list"
  stats :: "stats option"
  unit :: "string option"

record timeseriesData =
  timestamps :: "rat list"
  vus :: "rat list"
  responseTime :: "(rat \<times> rat) list"
  requests :: "(rat \<times> rat \<times> string option) list"
  dataTransfer :: "(rat \<times> rat) list"
  statusCodes :: "(string \<times> nat option) list"
  responseTimeDistribution :: "int list \<times> nat list"

text \<open>
  The local variables of \<^verbatim>\<open>processK6Output\<close> that the line callback mutates.
  \<^item> \<open>metrics\<close> holds the own properties of \<^verbatim>\<open>metrics\<close> and, under the key
    \<^verbatim>\<open>__proto__\<close>, the object that an assignment \<^verbatim>\<open>metrics['__proto__'] = {...}\<close> has
    made its prototype: that key is never an own property.
  \<^item> A value of \<open>statusCodes\<close> is \<open>Some n\<close> for the number \<open>n\<close> and \<open>None\<close> for a
    string, which is what \<^verbatim>\<open>+ 1\<close> makes of an inherited function.
\<close>

record pstate =
  metrics :: "(string \<times> metric_entry) list"
  samples :: "(string \<times> rat list) list"
  tsd :: timeseriesData
  successfulResponses :: "(rat \<times> rat) list"
  testStartTime :: "int option"
  testEndTime :: "int option"
  errorsLogged :: nat

definition initState :: pstate where
  "initState =
     \<lparr>metrics = [], samples = [],
      tsd = \<lparr>timestamps = [], vus = [], responseTime = [], requests = [],
              dataTransfer = [], statusCodes = [], responseTimeDistribution = ([], [])\<rparr>,
      successfulResponses = [], testStartTime = None, testEndTime = None,
      errorsLogged = 0\<rparr>"

section \<open>getMetricUnit\<close>

definition metricUnits :: "(string \<times> string) list" where
  "metricUnits =
     [(''http_req_duration'', ''time''),
      (''http_req_waiting'', ''time''),
      (''http_req_connecting'', ''time''),
      (''http_req_tls_handshaking'', ''time''),
      (''http_req_sending'', ''time''),
      (''http_req_receiving'', ''time''),
      (''http_reqs'', ''count''),
      (''data_sent'', ''data''),
      (''data_received'', ''data''),
      (''iteration_duration'', ''time''),
      (''iterations'', ''count''),
      (''vus'', ''count''),
      (''vus_max'', ''count''),
      (''checks'', ''count'')]"

text \<open>
  \<^verbatim>\<open>metricUnits[metricName] || ''\<close>. For a name in \<open>protoKeys\<close> the lookup finds the
  inherited member, which is truthy and no string: the result is \<open>None\<close>.
\<close>

definition getMetricUnit :: "string \<Rightarrow> string option" where
  "getMetricUnit metricName =
     (case map_of metricUnits metricName of
        Some u \<Rightarrow> Some u
      | None \<Rightarrow> if metricName \<in> set protoKeys then None else Some '''')"

section \<open>processK6Output: the line callback\<close>

text \<open>\<^verbatim>\<open>data.data.tags?.status\<close>: the status tag, when there are tags and it is set.\<close>

definition tagStatus :: "point \<Rightarrow> string option" where
  "tagStatus p = (case data_tags p of None \<Rightarrow> None | Some t \<Rightarrow> t ''status'')"

text \<open>\<^verbatim>\<open>data.data.tags && data.data.tags.status\<close> is truthy: a non-empty string.\<close>

definition hasStatus :: "point \<Rightarrow> bool" where
  "hasStatus p = (case tagStatus p of None \<Rightarrow> False | Some s \<Rightarrow> s \<noteq> [])"

text \<open>\<^verbatim>\<open>data.data.tags && data.data.tags.status === '200'\<close>.\<close>

definition isStatus200 :: "point \<Rightarrow> bool" where
  "isStatus200 p = (tagStatus p = Some ''200'')"

text \<open>\<^verbatim>\<open>obj[k] = (obj[k] || 0) + 1\<close> for a numeric key \<open>k\<close>, which no object inherits.\<close>

definition increment :: "'k \<Rightarrow> ('k \<times> nat) list \<Rightarrow> ('k \<times> nat) list" where
  "increment k obj =
     AList.update k ((case map_of obj k of None \<Rightarrow> 0 | Some c \<Rightarrow> c) + 1) obj"

text \<open>Lines 82-83: the earliest and the latest timestamp seen.\<close>

definition trackTimes :: "int \<Rightarrow> pstate \<Rightarrow> pstate" where
  "trackTimes ms st =
     st\<lparr>testStartTime :=
          (case testStartTime st of
             None \<Rightarrow> Some ms
           | Some s \<Rightarrow> if ms < s then Some ms else Some s),
        testEndTime :=
          (case testEndTime st of
             None \<Rightarrow> Some ms
           | Some e \<Rightarrow> if ms > e then Some ms else Some e)\<rparr>"

text \<open>
  Line 88: \<^verbatim>\<open>statusCodes[status] = (statusCodes[status] || 0) + 1\<close>.
  \<^item> An own number is incremented; an own string grows by \<^verbatim>\<open>"1"\<close> and stays a string.
  \<^item> A status that is no own property and not in \<open>protoKeys\<close> reads \<^verbatim>\<open>undefined\<close>
    and is stored as 1.
  \<^item> For \<^verbatim>\<open>__proto__\<close> the read gives the prototype, the sum is a string, and the
    assignment of a string to the accessor stores nothing.
  \<^item> For another name of \<open>protoKeys\<close> the read gives the inherited function, the sum
    is a string, and the assignment creates an own property holding it.
\<close>

definition countStatus ::
  "string \<Rightarrow> (string \<times> nat option) list \<Rightarrow> (string \<times> nat option) list" where
  "countStatus status obj =
     (case map_of obj status of
        Some (Some c) \<Rightarrow> AList.update status (Some (c + 1)) obj
      | Some None \<Rightarrow> obj
      | None \<Rightarrow>
          if status = ''__proto__'' then obj
          else if status \<in> set protoKeys then AList.update status None obj
          else AList.update status (Some 1) obj)"

text \<open>Lines 86-89: the status-code histogram.\<close>

definition trackStatus :: "point \<Rightarrow> timeseriesData \<Rightarrow> timeseriesData" where
  "trackStatus p t =
     (if metric p = ''http_reqs'' \<and> hasStatus p
      then t\<lparr>statusCodes := countStatus (the (tagStatus p)) (statusCodes t)\<rparr>
      else t)"

text \<open>Lines 92-117: the \<^verbatim>\<open>if\<close>/\<^verbatim>\<open>else if\<close> chain on the metric name.\<close>

definition collectTimeseries ::
  "point \<Rightarrow> rat \<Rightarrow> timeseriesData \<times> (rat \<times> rat) list \<Rightarrow> timeseriesData \<times> (rat \<times> rat) list"
where
  "collectTimeseries p timeInSeconds acc =
     (case acc of (t, succ) \<Rightarrow>
        if metric p = ''vus'' then
          (t\<lparr>timestamps := timestamps t @ [timeInSeconds],
             vus := vus t @ [data_value p]\<rparr>, succ)
        else if metric p = ''http_req_duration'' then
          (if isStatus200 p then (t, succ @ [(timeInSeconds, data_value p)]) else (t, succ))
        else if metric p = ''http_reqs'' then
          (t\<lparr>requests := requests t @ [(timeInSeconds, data_value p, tagStatus p)]\<rparr>, succ)
        else if metric p = ''data_received'' then
          (if isStatus200 p
           then (t\<lparr>dataTransfer := dataTransfer t @ [(timeInSeconds, data_value p)]\<rparr>, succ)
           else (t, succ))
        else (t, succ))"

text \<open>Lines 78-118: the block guarded by \<^verbatim>\<open>data.type === 'Point' && data.data.time\<close>.\<close>

definition trackPoint :: "point \<Rightarrow> int \<Rightarrow> pstate \<Rightarrow> pstate" where
  "trackPoint p ms st =
     (let timeInSeconds = rat_of_int ms / 1000;
          st1 = trackTimes ms st;
          (t, succ) = collectTimeseries p timeInSeconds
                        (trackStatus p (tsd st1), successfulResponses st1)
      in st1\<lparr>tsd := t, successfulResponses := succ\<rparr>)"

text \<open>
  Lines 121-129: a metric definition (re)creates the entry of its name. For the name
  \<^verbatim>\<open>__proto__\<close> the assignment makes the new object the prototype of \<^verbatim>\<open>metrics\<close>,
  kept here under that key.
\<close>

definition defineMetric :: "string \<Rightarrow> string \<Rightarrow> string \<Rightarrow> pstate \<Rightarrow> pstate" where
  "defineMetric name ty cont st =
     st\<lparr>metrics :=
          AList.update name
            \<lparr>mtype = ty, contains = cont, values_m = [], stats = None,
             unit = getMetricUnit name\<rparr>
            (metrics st)\<rparr>"

text \<open>
  Lines 132-141: the sample filter. A \<^verbatim>\<open>http_req_duration\<close> point without
  \<^verbatim>\<open>status === '200'\<close> returns early; every other point is pushed. For a metric name
  in \<open>protoKeys\<close>, \<^verbatim>\<open>samples[metricName]\<close> is the inherited member, which is truthy
  and has no \<^verbatim>\<open>push\<close>: no array is created, the call throws inside the \<^verbatim>\<open>try\<close>, the
  error is logged and the sample is lost. What the callback did before stays done.
\<close>

definition collectSample :: "point \<Rightarrow> pstate \<Rightarrow> pstate" where
  "collectSample p st =
     (if metric p = ''http_req_duration'' \<and> \<not> isStatus200 p then st
      else if metric p \<in> set protoKeys then st\<lparr>errorsLogged := Suc (errorsLogged st)\<rparr>
      else
        st\<lparr>samples :=
             AList.update (metric p)
               ((case map_of (samples st) (metric p) of None \<Rightarrow> [] | Some vs \<Rightarrow> vs)
                  @ [data_value p])
               (samples st)\<rparr>)"

text \<open>The callback of \<^verbatim>\<open>lines.forEach\<close> (lines 72-145), \<^verbatim>\<open>catch\<close> included.\<close>

fun processLine :: "line \<Rightarrow> pstate \<Rightarrow> pstate" where
  "processLine Blank st = st"
| "processLine Garbage st = st\<lparr>errorsLogged := Suc (errorsLogged st)\<rparr>"
| "processLine Malformed st = st\<lparr>errorsLogged := Suc (errorsLogged st)\<rparr>"
| "processLine Other st = st"
| "processLine (Metric name ty cont) st = defineMetric name ty cont st"
| "processLine (Point p) st =
     collectSample p
       (case data_time p of None \<Rightarrow> st | Some ms \<Rightarrow> trackPoint p ms st)"

definition processLines :: "line list \<Rightarrow> pstate" where
  "processLines ls = fold processLine ls initState"

section \<open>processK6Output: statistics\<close>

text \<open>\<^verbatim>\<open>Math.floor(len * p)\<close> for \<open>p\<close> one of 0.9, 0.95, 0.99.\<close>

definition floorIndex :: "nat \<Rightarrow> rat \<Rightarrow> nat" where
  "floorIndex len p = nat \<lfloor>rat_of_nat len * p\<rfloor>"

text \<open>
  The object literal of lines 156-167, for a sorted array of length \<open>len > 0\<close>. The sum
  of \<^verbatim>\<open>reduce\<close> and the sum of the two middle values are double additions.
\<close>

definition statsOf :: "rat list \<Rightarrow> stats" where
  "statsOf vs =
     (let len = length vs in
      \<lparr>min_stat = vs ! 0,
       max_stat = vs ! (len - 1),
       avg = over (fold (\<lambda>b a. plus_js a (Num b)) vs (Num 0)) (rat_of_nat len),
       med = (if len mod 2 = 0
              then over (plus_js (Num (vs ! (len div 2 - 1))) (Num (vs ! (len div 2)))) 2
              else Num (vs ! (len div 2))),
       p90 = vs ! floorIndex len (9 / 10),
       p95 = vs ! floorIndex len (95 / 100),
       p99 = vs ! floorIndex len (99 / 100),
       count = len\<rparr>)"

text \<open>
  \<^verbatim>\<open>metrics[metricName]\<close>, as line 156 reads it:
  \<^item> \<open>Own e\<close>: an entry (for \<^verbatim>\<open>__proto__\<close>, the prototype that a definition installed);
  \<^item> \<open>Inherited\<close>: no entry, but an inherited value: a member of \<^verbatim>\<open>Object.prototype\<close>,
    or a field (\<^verbatim>\<open>type\<close>, \<^verbatim>\<open>contains\<close>, \<^verbatim>\<open>values\<close>, \<^verbatim>\<open>stats\<close>, \<^verbatim>\<open>unit\<close>) of an
    installed prototype;
  \<^item> \<open>Undefined\<close>: nothing.
\<close>

datatype lookup = Own metric_entry | Inherited | Undefined

definition entryFields :: "string list" where
  "entryFields = [''type'', ''contains'', ''values'', ''stats'', ''unit'']"

definition lookupMetric :: "(string \<times> metric_entry) list \<Rightarrow> string \<Rightarrow> lookup" where
  "lookupMetric ms name =
     (case map_of ms name of
        Some e \<Rightarrow> Own e
      | None \<Rightarrow>
          if name \<in> set protoKeys then Inherited
          else if name \<in> set entryFields \<and> map_of ms ''__proto__'' \<noteq> None then Inherited
          else Undefined)"

text \<open>
  Lines 151-169: \<^verbatim>\<open>Object.keys(samples).forEach\<close>. Assigning
  \<^verbatim>\<open>metrics[metricName].stats\<close> throws a \<^verbatim>\<open>TypeError\<close> when the read gives
  \<^verbatim>\<open>undefined\<close>; nothing catches it inside \<^verbatim>\<open>processK6Output\<close>. On an inherited value
  the assignment sets a property of a function, an array or an object that nothing
  reads, or is dropped by a string (sloppy mode): the entries stay as they are.
\<close>

fun computeStatistics ::
  "(string \<times> rat list) list \<Rightarrow> (string \<times> metric_entry) list
     \<Rightarrow> error + (string \<times> metric_entry) list"
where
  "computeStatistics [] ms = Inr ms"
| "computeStatistics ((metricName, vs) # rest) ms =
     (let sorted_vs = sort vs; len = length sorted_vs in
      if len > 0 then
        (case lookupMetric ms metricName of
           Undefined \<Rightarrow> Inl TypeError
         | Inherited \<Rightarrow> computeStatistics rest ms
         | Own e \<Rightarrow>
             computeStatistics rest
               (AList.update metricName (e\<lparr>stats := Some (statsOf sorted_vs)\<rparr>) ms))
      else computeStatistics rest ms)"

text \<open>
  Own property keys in the order \<^verbatim>\<open>Object.keys\<close> gives them: array indices
  (integers from 0 to \<open>2^32 - 2\<close>) ascending, then the other keys in insertion order.
\<close>

definition isArrayIndex :: "int \<Rightarrow> bool" where
  "isArrayIndex k = (0 \<le> k \<and> k < 2 ^ 32 - 1)"

definition ownEntries :: "(int \<times> 'v) list \<Rightarrow> (int \<times> 'v) list" where
  "ownEntries obj =
     sort_key fst (filter (\<lambda>kv. isArrayIndex (fst kv)) obj)
       @ filter (\<lambda>kv. \<not> isArrayIndex (fst kv)) obj"

text \<open>Lines 172-181: 100 ms buckets of the successful response times.\<close>

definition responseTimeBuckets :: "(rat \<times> rat) list \<Rightarrow> (int \<times> nat) list" where
  "responseTimeBuckets succ =
     fold (\<lambda>pt obj. increment (\<lfloor>snd pt / 100\<rfloor> * 100) obj) succ []"

record report_data =
  r_metrics :: "(string \<times> metric_entry) list"
  testDuration :: int
  timeseries :: timeseriesData

text \<open>
  \<^verbatim>\<open>testEndTime - testStartTime\<close>: both are \<^verbatim>\<open>null\<close> (the difference is 0) or both
  are dates.
\<close>

definition duration :: "pstate \<Rightarrow> int" where
  "duration st =
     (case (testStartTime st, testEndTime st) of
        (Some s, Some e) \<Rightarrow> e - s
      | _ \<Rightarrow> 0)"

definition finish :: "pstate \<Rightarrow> error + report_data" where
  "finish st =
     (case computeStatistics (samples st) (metrics st) of
        Inl e \<Rightarrow> Inl e
      | Inr ms \<Rightarrow>
          (let buckets = ownEntries (responseTimeBuckets (successfulResponses st))
           in Inr \<lparr>r_metrics = ms,
                   testDuration = duration st,
                   timeseries =
                     (tsd st)\<lparr>responseTime := successfulResponses st,
                              responseTimeDistribution :=
                                (map fst buckets, map snd buckets)\<rparr>\<rparr>))"

definition processK6Output :: "line list \<Rightarrow> error + report_data" where
  "processK6Output ls = finish (processLines ls)"

section \<open>Formatting helpers\<close>



text \<open>Decimal digits of a natural number; the flag says that one digit is left.\<close>

function digitsFrom :: "bool \<Rightarrow> nat \<Rightarrow> string" where
  "digitsFrom True n = [''0123456789'' ! n]"
| "digitsFrom False n = digitsFrom (n div 10 < 10) (n div 10) @ [''0123456789'' ! (n mod 10)]"
  by pat_completeness auto
termination
  by (relation "measure (\<lambda>(b, n). if b then 0 else Suc n)") auto

definition digitsOf :: "nat \<Rightarrow> string" where
  "digitsOf n = digitsFrom (n < 10) n"

text \<open>
  \<^verbatim>\<open>x.toFixed(2)\<close> for a finite \<open>x\<close> below \<open>10^21\<close>: the magnitude is rounded to
  hundredths, halves upwards, and printed with two decimals.
\<close>

definition hundredths :: "rat \<Rightarrow> nat" where
  "hundredths x = nat \<lfloor>\<bar>x\<bar> * 100 + 1 / 2\<rfloor>"

definition fixed2 :: "rat \<Rightarrow> string" where
  "fixed2 x =
     (let n = hundredths x;
          body = digitsOf (n div 100) @ ''.'' @ digitsOf (n mod 100 div 10) @ digitsOf (n mod 10)
      in if x < 0 then ''-'' @ body else body)"

fun toFixed :: "jsnum \<Rightarrow> string" where
  "toFixed NaN = ''NaN''"
| "toFixed (Num x) = fixed2 x"
| "toFixed PosInf = ''Infinity''"
| "toFixed NegInf = ''-Infinity''"

text \<open>
  \<^verbatim>\<open>formatDuration(ms)\<close>. Every comparison with \<open>NaN\<close> is false, so \<open>NaN\<close> reaches
  the last branch. The micro sign of \<^verbatim>\<open>' \<mu>s'\<close> is its two UTF-8 bytes.
\<close>

definition formatDuration :: "jsnum \<Rightarrow> string" where
  "formatDuration ms =
     (if lt ms 1 then toFixed (times_js ms (Num 1000)) @ [CHR '' '', CHR 0xCE, CHR 0xBC, CHR ''s'']
      else if lt ms 1000 then toFixed ms @ '' ms''
      else if lt ms 60000 then toFixed (over ms 1000) @ '' s''
      else toFixed (over ms 60000) @ '' m'')"

text \<open>\<open>\<lfloor>log\<^sub>1\<^sub>0\<^sub>2\<^sub>4 n\<rfloor>\<close> for \<open>n \<ge> 1\<close>; the flag says that \<open>n < 1024\<close>.\<close>

function logFrom :: "bool \<Rightarrow> nat \<Rightarrow> nat" where
  "logFrom True n = 0"
| "logFrom False n = Suc (logFrom (n div 1024 < 1024) (n div 1024))"
  by pat_completeness auto
termination
  by (relation "measure (\<lambda>(b, n). if b then 0 else Suc n)") auto

definition log1024 :: "nat \<Rightarrow> nat" where
  "log1024 n = logFrom (n < 1024) n"

text \<open>\<^verbatim>\<open>Math.floor(Math.log(bytes) / Math.log(k))\<close> for \<open>bytes > 0\<close>, \<open>k = 1024\<close>.\<close>

definition logFloor :: "rat \<Rightarrow> int" where
  "logFloor x =
     (if 1 \<le> x then int (log1024 (nat \<lfloor>x\<rfloor>))
      else - int (Suc (log1024 (nat \<lceil>1 / x\<rceil> - 1))))"

definition sizes :: "string list" where
  "sizes = [''Bytes'', ''KB'', ''MB'', ''GB'']"

text \<open>
  \<^verbatim>\<open>parseFloat(x.toFixed(2)) + ' '\<close>: the number rounded to hundredths, printed
  without trailing zeros.
\<close>

definition shortest2 :: "rat \<Rightarrow> string" where
  "shortest2 x =
     (let n = hundredths x;
          whole = digitsOf (n div 100);
          frac = (if n mod 100 = 0 then []
                  else if n mod 10 = 0 then ''.'' @ digitsOf (n mod 100 div 10)
                  else ''.'' @ digitsOf (n mod 100 div 10) @ digitsOf (n mod 10))
      in if x < 0 \<and> 0 < n then ''-'' @ whole @ frac else whole @ frac)"

text \<open>
  \<^verbatim>\<open>formatBytes(bytes)\<close>. \<^verbatim>\<open>Math.log\<close> of \<open>NaN\<close> or of a negative number is \<open>NaN\<close>,
  and so are the index and the quotient; for \<open>+\<infinity>\<close> the index and the power are
  infinite and the quotient is \<open>NaN\<close>. \<^verbatim>\<open>sizes[i]\<close> outside 0..3 is \<^verbatim>\<open>undefined\<close>.
\<close>

definition formatBytes :: "jsnum \<Rightarrow> string" where
  "formatBytes bytes =
     (case bytes of
        NaN \<Rightarrow> ''NaN undefined''
      | PosInf \<Rightarrow> ''NaN undefined''
      | NegInf \<Rightarrow> ''NaN undefined''
      | Num x \<Rightarrow>
          if x = 0 then ''0 Bytes''
          else if x < 0 then ''NaN undefined''
          else
            (let i = logFloor x;
                 scaled = (if 0 \<le> i then x / 1024 ^ nat i else x * 1024 ^ nat (- i))
             in shortest2 scaled @ '' ''
                  @ (if 0 \<le> i \<and> i < 4 then sizes ! nat i else ''undefined'')))"

section \<open>generateHTML\<close>

text \<open>
  What \<^verbatim>\<open>generateHTML\<close> reads besides its argument: the clock
  (\<open>now\<close> is \<^verbatim>\<open>new Date().toISOString()\<close>) and the locale of the process
  (\<^verbatim>\<open>toLocaleString\<close> of an integer and of the date parsed from an ISO string).
\<close>

record env =
  now :: string
  numberLocale :: "int \<Rightarrow> string"
  dateLocale :: "string \<Rightarrow> string"

text \<open>
  The document as the sequence of its template holes, in order. \<open>Stamp\<close> marks text
  computed from \<open>now\<close>; \<open>Numbers\<close> and \<open>Strings\<close> are arrays passed through
  \<^verbatim>\<open>JSON.stringify\<close>. The static markup between the holes is constant and left out,
  except for the tags around a hole.
\<close>

datatype piece =
    Text string
  | Stamp string
  | Numbers "rat list"
  | Strings "string list"
  | Counts "nat option list"

text \<open>
  \<^verbatim>\<open>Object.entries\<close>/\<^verbatim>\<open>Object.keys\<close>/\<^verbatim>\<open>Object.values\<close> of an object with string
  keys: keys that are canonical array indices come first, ascending; the others follow in
  insertion order.
\<close>

definition digitTable :: "(char \<times> nat) list" where
  "digitTable =
     [(CHR ''0'', 0), (CHR ''1'', 1), (CHR ''2'', 2), (CHR ''3'', 3), (CHR ''4'', 4),
      (CHR ''5'', 5), (CHR ''6'', 6), (CHR ''7'', 7), (CHR ''8'', 8), (CHR ''9'', 9)]"

fun parseDecimal :: "string \<Rightarrow> nat \<Rightarrow> nat option" where
  "parseDecimal [] acc = Some acc"
| "parseDecimal (c # cs) acc =
     (case map_of digitTable c of
        None \<Rightarrow> None
      | Some v \<Rightarrow> parseDecimal cs (10 * acc + v))"

definition arrayIndexKey :: "string \<Rightarrow> nat option" where
  "arrayIndexKey s =
     (case s of
        [] \<Rightarrow> None
      | c # cs \<Rightarrow>
          if c = CHR ''0'' \<and> cs \<noteq> [] then None
          else (case parseDecimal s 0 of
                  None \<Rightarrow> None
                | Some v \<Rightarrow> if v < 2 ^ 32 - 1 then Some v else None))"

definition objectEntries :: "(string \<times> 'v) list \<Rightarrow> (string \<times> 'v) list" where
  "objectEntries obj =
     sort_key (\<lambda>kv. the (arrayIndexKey (fst kv)))
       (filter (\<lambda>kv. arrayIndexKey (fst kv) \<noteq> None) obj)
     @ filter (\<lambda>kv. arrayIndexKey (fst kv) = None) obj"

text \<open>
  \<^verbatim>\<open>Object.entries(metrics)\<close>: the own properties; the prototype kept under
  \<^verbatim>\<open>__proto__\<close> is none.
\<close>

definition ownMetrics :: "(string \<times> metric_entry) list \<Rightarrow> (string \<times> metric_entry) list" where
  "ownMetrics ms = objectEntries (filter (\<lambda>kv. fst kv \<noteq> ''__proto__'') ms)"

text \<open>\<^verbatim>\<open>data.stats[stat]\<close>: \<^verbatim>\<open>undefined\<close> when \<^verbatim>\<open>stats\<close> is the empty object.\<close>

definition statValue :: "metric_entry \<Rightarrow> (stats \<Rightarrow> jsnum) \<Rightarrow> jsnum" where
  "statValue e f = (case stats e of None \<Rightarrow> NaN | Some s \<Rightarrow> f s)"

text \<open>
  Lines 305-310: the request lines of the summary, present when \<^verbatim>\<open>metrics.http_reqs\<close>
  is. \<^verbatim>\<open>metrics.http_reqs.stats.count.toLocaleString()\<close> throws when the count is
  \<^verbatim>\<open>undefined\<close>. The rate is \<open>NaN\<close> or \<open>Infinity\<close> for a zero count.
\<close>

definition successRate :: "nat \<Rightarrow> nat \<Rightarrow> string" where
  "successRate ok cnt =
     (if cnt = 0 then (if ok = 0 then ''NaN'' else ''Infinity'')
      else fixed2 (rat_of_nat ok / rat_of_nat cnt * 100))"

definition requestLines :: "env \<Rightarrow> report_data \<Rightarrow> error + piece list" where
  "requestLines env d =
     (case map_of (r_metrics d) ''http_reqs'' of
        None \<Rightarrow> Inr []
      | Some e \<Rightarrow>
          (case stats e of
             None \<Rightarrow> Inl TypeError
           | Some s \<Rightarrow>
               (let ok = (case map_of (statusCodes (timeseries d)) ''200'' of
                            Some (Some c) \<Rightarrow> c | _ \<Rightarrow> 0)
                in Inr
                  [Text (''<p>Total Requests: '' @ numberLocale env (int (count s)) @ ''</p>''),
                   Text (''<p>Successful Requests (200): '' @ numberLocale env (int ok)
                           @ ''</p>''),
                   Text (''<p>Failed Requests: ''
                           @ numberLocale env (int (count s) - int ok) @ ''</p>''),
                   Text (''<p>Success Rate: '' @ successRate ok (count s) @ ''%</p>'')])))"

text \<open>Lines 311-313: the average response time, present when the metric is.\<close>

definition responseLine :: "report_data \<Rightarrow> piece list" where
  "responseLine d =
     (case map_of (r_metrics d) ''http_req_duration'' of
        None \<Rightarrow> []
      | Some e \<Rightarrow>
          [Text (''<p>Average Response Time (Success Only): ''
                   @ formatDuration (statValue e avg) @ ''</p>'')])"

text \<open>Lines 333-342: one row per metric of unit \<^verbatim>\<open>'time'\<close>.\<close>

definition timeCells :: "metric_entry \<Rightarrow> string list" where
  "timeCells e =
     map (\<lambda>f. formatDuration (statValue e f))
       [\<lambda>s. Num (min_stat s), \<lambda>s. Num (max_stat s), avg, med,
        \<lambda>s. Num (p90 s), \<lambda>s. Num (p95 s), \<lambda>s. Num (p99 s)]"

definition tableRow :: "string \<Rightarrow> string list \<Rightarrow> piece" where
  "tableRow name cells =
     Text (''<tr><td>'' @ name @ ''</td>''
             @ concat (map (\<lambda>c. ''<td>'' @ c @ ''</td>'') cells) @ ''</tr>'')"

definition timeRows :: "report_data \<Rightarrow> piece list" where
  "timeRows d =
     map (\<lambda>kv. tableRow (fst kv) (timeCells (snd kv)))
       (filter (\<lambda>kv. unit (snd kv) = Some ''time'') (ownMetrics (r_metrics d)))"

text \<open>
  Lines 361-371: one row per metric of unit \<^verbatim>\<open>'data'\<close>. The total reads
  \<^verbatim>\<open>metrics.http_reqs.stats.count\<close> with no guard: it throws when \<^verbatim>\<open>http_reqs\<close> is
  not a metric.
\<close>

definition dataCells :: "report_data \<Rightarrow> metric_entry \<Rightarrow> error + string list" where
  "dataCells d e =
     (case map_of (r_metrics d) ''http_reqs'' of
        None \<Rightarrow> Inl TypeError
      | Some h \<Rightarrow>
          Inr [formatBytes (statValue e (\<lambda>s. Num (min_stat s))),
               formatBytes (statValue e (\<lambda>s. Num (max_stat s))),
               formatBytes (statValue e avg),
               formatBytes
                 (times_js (statValue e avg) (statValue h (\<lambda>s. Num (rat_of_nat (count s)))))])"

fun dataRows :: "report_data \<Rightarrow> (string \<times> metric_entry) list \<Rightarrow> error + piece list" where
  "dataRows d [] = Inr []"
| "dataRows d ((name, e) # rest) =
     (case dataCells d e of
        Inl err \<Rightarrow> Inl err
      | Inr cells \<Rightarrow>
          (case dataRows d rest of
             Inl err \<Rightarrow> Inl err
           | Inr rows \<Rightarrow> Inr (tableRow name cells # rows)))"

text \<open>Lines 404-575: the arrays embedded in the chart script.\<close>

definition chartData :: "report_data \<Rightarrow> piece list" where
  "chartData d =
     (let t = timeseries d; codes = objectEntries (statusCodes t) in
      [Numbers (timestamps t),
       Numbers (vus t),
       Numbers (map fst (responseTime t)),
       Numbers (map snd (responseTime t)),
       Numbers (map rat_of_int (fst (responseTimeDistribution t))),
       Numbers (map rat_of_nat (snd (responseTimeDistribution t))),
       Numbers (sort (map snd (responseTime t))),
       Numbers (timestamps t),
       Numbers (timestamps t),
       Strings (map fst codes),
       Counts (map snd codes)])"

definition generateHTML :: "env \<Rightarrow> report_data \<Rightarrow> error + piece list" where
  "generateHTML env d =
     (case requestLines env d of
        Inl err \<Rightarrow> Inl err
      | Inr reqs \<Rightarrow>
          (case dataRows d
                  (filter (\<lambda>kv. unit (snd kv) = Some ''data'') (ownMetrics (r_metrics d))) of
             Inl err \<Rightarrow> Inl err
           | Inr rows \<Rightarrow>
               Inr ([Text ''<title>Load Test Report - '', Stamp (now env), Text ''</title>'',
                     Text ''<p>Test Start: '', Stamp (dateLocale env (now env)), Text ''</p>'',
                     Text (''<p>Test Duration: ''
                             @ formatDuration (Num (rat_of_int (testDuration d))) @ ''</p>'')]
                    @ reqs @ responseLine d @ timeRows d @ rows @ chartData d)))"

text \<open>
  Lines 520-536, run by the browser on the embedded \<^verbatim>\<open>timeseriesData.timestamps\<close>: the
  requests-per-second loop. For an empty array \<^verbatim>\<open>currentSecond\<close> is \<open>NaN\<close> and the
  loop body never runs. Nothing is pushed after the loop.
\<close>

fun rpsLoop :: "rat list \<Rightarrow> int \<Rightarrow> nat \<Rightarrow> (int \<times> nat) list \<Rightarrow> (int \<times> nat) list" where
  "rpsLoop [] currentSecond requestCount out = out"
| "rpsLoop (timestamp # rest) currentSecond requestCount out =
     (if \<lfloor>timestamp\<rfloor> = currentSecond
      then rpsLoop rest currentSecond (requestCount + 1) out
      else rpsLoop rest \<lfloor>timestamp\<rfloor> 1 (out @ [(currentSecond, requestCount)]))"

definition rpsData :: "rat list \<Rightarrow> (int \<times> nat) list" where
  "rpsData ts = (case ts of [] \<Rightarrow> [] | t # rest \<Rightarrow> rpsLoop ts \<lfloor>t\<rfloor> 0 [])"

section \<open>Main execution\<close>

text \<open>
  Lines 633-645: the exit code and the report written. The input is \<open>None\<close> when
  \<^verbatim>\<open>k6-output.json\<close> cannot be read. Any exception ends in \<^verbatim>\<open>process.exit(1)\<close>.
\<close>

definition main :: "env \<Rightarrow> line list option \<Rightarrow> nat \<times> piece list option" where
  "main env file =
     (case file of
        None \<Rightarrow> (1, None)
      | Some ls \<Rightarrow>
          (case processK6Output ls of
             Inl err \<Rightarrow> (1, None)
           | Inr d \<Rightarrow>
               (case generateHTML env d of
                  Inl err \<Rightarrow> (1, None)
                | Inr html \<Rightarrow> (0, Some html))))"

section \<open>Reading the result\<close>

text \<open>
  The definitions of this section do not model code: they name what the statements
  further down speak about. \<open>samplesAt st m\<close> is \<^verbatim>\<open>samples[m]\<close>, the empty list when the key is
  missing; \<open>pointsOf\<close> and \<open>metricNames\<close> list the \<^verbatim>\<open>Point\<close> records and the names
  of the \<^verbatim>\<open>Metric\<close> records of a log, in order.
\<close>

definition samplesAt :: "pstate \<Rightarrow> string \<Rightarrow> rat list" where
  "samplesAt st m = (case map_of (samples st) m of None \<Rightarrow> [] | Some vs \<Rightarrow> vs)"

fun pointsOf :: "line list \<Rightarrow> point list" where
  "pointsOf [] = []"
| "pointsOf (Point p # ls) = p # pointsOf ls"
| "pointsOf (_ # ls) = pointsOf ls"

fun metricNames :: "line list \<Rightarrow> string list" where
  "metricNames [] = []"
| "metricNames (Metric name ty cont # ls) = name # metricNames ls"
| "metricNames (_ # ls) = metricNames ls"

text \<open>
  The filtering policy in the specification's words: a sample of the latency metric
  counts only when tagged \<^verbatim>\<open>status == "200"\<close>; a sample of any other metric counts.
  \<open>attributed m ls\<close> are the values attributed to metric \<open>m\<close>: those of the points that
  pass the filter, none when \<open>m\<close> names a member of \<^verbatim>\<open>Object.prototype\<close>.
\<close>

definition passesFilter :: "point \<Rightarrow> bool" where
  "passesFilter p = (metric p \<noteq> ''http_req_duration'' \<or> tagStatus p = Some ''200'')"

definition attributed :: "string \<Rightarrow> line list \<Rightarrow> rat list" where
  "attributed m ls =
     (if m \<in> set protoKeys then []
      else map data_value (filter (\<lambda>p. metric p = m \<and> passesFilter p) (pointsOf ls)))"

text \<open>Invariants of the line loop.\<close>

definition samplesOk :: "pstate \<Rightarrow> bool" where
  "samplesOk st =
     (distinct (map fst (samples st)) \<and> list_all (\<lambda>kv. snd kv \<noteq> []) (samples st))"

definition noStats :: "pstate \<Rightarrow> bool" where
  "noStats st = list_all (\<lambda>kv. stats (snd kv) = None) (metrics st)"

definition isDefined :: "pstate \<Rightarrow> string \<Rightarrow> bool" where
  "isDefined st n = (map_of (metrics st) n \<noteq> None)"

text \<open>Example logs.\<close>

definition taggedPoint :: "string \<Rightarrow> int \<Rightarrow> rat \<Rightarrow> string \<Rightarrow> point" where
  "taggedPoint m ms v s =
     \<lparr>metric = m, data_time = Some ms, data_value = v,
      data_tags = Some [''status'' \<mapsto> s]\<rparr>"

definition untaggedPoint :: "string \<Rightarrow> int \<Rightarrow> rat \<Rightarrow> point" where
  "untaggedPoint m ms v =
     \<lparr>metric = m, data_time = Some ms, data_value = v, data_tags = None\<rparr>"

definition tenSamples :: "line list" where
  "tenSamples =
     Metric ''http_req_duration'' ''trend'' ''time''
       # map (\<lambda>v. Point (taggedPoint ''http_req_duration'' 1000 v ''200''))
           [10, 20, 30, 40, 50, 60, 70, 80, 90, 100]"


definition garbledLog :: "line list" where
  "garbledLog =
     [Metric ''http_req_duration'' ''trend'' ''time'',
      Point (taggedPoint ''http_req_duration'' 1000 30 ''200''),
      Point (taggedPoint ''http_req_duration'' 1100 10 ''200''),
      Garbage,
      Point (taggedPoint ''http_req_duration'' 1200 50 ''200''),
      Point (taggedPoint ''http_req_duration'' 1300 20 ''200''),
      Point (taggedPoint ''http_req_duration'' 1400 40 ''200'')]"

text \<open>One more \<^verbatim>\<open>console.error\<close> call.\<close>

definition bump :: "pstate \<Rightarrow> pstate" where
  "bump st = st\<lparr>errorsLogged := Suc (errorsLogged st)\<rparr>"

text \<open>
  The two totals of the report: \<^verbatim>\<open>metrics.http_reqs.stats.count\<close>, which the summary
  prints as the total number of requests, and the sum of the status-code histogram.
\<close>

definition totalRequests :: "report_data \<Rightarrow> nat option" where
  "totalRequests d =
     (case map_of (r_metrics d) ''http_reqs'' of
        None \<Rightarrow> None
      | Some e \<Rightarrow> map_option count (stats e))"

definition countOf :: "nat option \<Rightarrow> nat" where
  "countOf v = (case v of None \<Rightarrow> 0 | Some c \<Rightarrow> c)"

definition histogramSum :: "(string \<times> nat option) list \<Rightarrow> nat" where
  "histogramSum obj = sum_list (map (\<lambda>kv. countOf (snd kv)) obj)"

definition histogramTotal :: "report_data \<Rightarrow> nat" where
  "histogramTotal d = histogramSum (statusCodes (timeseries d))"

text \<open>
  A status tag that the histogram counts: a non-empty string that is no member of
  \<^verbatim>\<open>Object.prototype\<close>.
\<close>

definition countedStatus :: "point \<Rightarrow> bool" where
  "countedStatus p =
     (case tagStatus p of None \<Rightarrow> False | Some s \<Rightarrow> s \<noteq> [] \<and> s \<notin> set protoKeys)"

text \<open>The \<^verbatim>\<open>http_reqs\<close> points that the histogram counts: a time and such a status tag.\<close>

definition inHistogram :: "point \<Rightarrow> bool" where
  "inHistogram p = (metric p = ''http_reqs'' \<and> data_time p \<noteq> None \<and> countedStatus p)"

text \<open>The histogram holds numbers under ordinary keys and strings under inherited names.\<close>

definition codesOk :: "(string \<times> nat option) list \<Rightarrow> bool" where
  "codesOk obj = list_all (\<lambda>kv. (snd kv = None) = (fst kv \<in> set protoKeys)) obj"

definition untaggedRequest :: "line list" where
  "untaggedRequest =
     [Metric ''http_reqs'' ''counter'' ''default'',
      Point (untaggedPoint ''http_reqs'' 1000 1)]"

definition taggedRequests :: "line list" where
  "taggedRequests =
     [Metric ''http_reqs'' ''counter'' ''default'',
      Point (taggedPoint ''http_reqs'' 1000 1 ''200''),
      Point (taggedPoint ''http_reqs'' 1100 1 ''500''),
      Point (taggedPoint ''http_reqs'' 1200 1 ''200'')]"

section \<open>Example environment and further logs\<close>

text \<open>A fixed clock and a locale that prints integers plainly and dates as they are.\<close>

definition exampleEnv :: env where
  "exampleEnv =
     \<lparr>now = ''2024-01-01T00:00:00.000Z'',
      numberLocale = (\<lambda>n. if n < 0 then ''-'' @ digitsOf (nat (- n)) else digitsOf (nat n)),
      dateLocale = (\<lambda>s. s)\<rparr>"

text \<open>Blanks what was computed from the clock.\<close>

fun blank :: "piece \<Rightarrow> piece" where
  "blank (Stamp s) = Stamp []"
| "blank p = p"

definition idleMetric :: "line list" where
  "idleMetric = [Metric ''http_req_waiting'' ''trend'' ''time'']"

definition dataOnly :: "line list" where
  "dataOnly =
     [Metric ''data_sent'' ''counter'' ''data'',
      Point (untaggedPoint ''data_sent'' 1000 2048)]"

definition fourRequests :: "line list" where
  "fourRequests =
     [Metric ''http_reqs'' ''counter'' ''default'',
      Point (taggedPoint ''http_reqs'' 1100 1 ''200''),
      Point (taggedPoint ''http_reqs'' 1400 1 ''200''),
      Point (taggedPoint ''http_reqs'' 1900 1 ''200''),
      Point (taggedPoint ''http_reqs'' 2200 1 ''200'')]"

definition failedOnly :: "line list" where
  "failedOnly = [Point (taggedPoint ''http_req_duration'' 1000 5 ''500'')]"

text \<open>A point of a metric that no line defines.\<close>

definition orphanPoint :: "line list" where
  "orphanPoint = [Point (untaggedPoint ''custom_trend'' 1000 5)]"

text \<open>Every sampled metric has an entry in \<^verbatim>\<open>metrics\<close>.\<close>

definition allDefined ::
  "(string \<times> rat list) list \<Rightarrow> (string \<times> metric_entry) list \<Rightarrow> bool" where
  "allDefined smp ms = list_all (\<lambda>kv. snd kv = [] \<or> map_of ms (fst kv) \<noteq> None) smp"


definition inheritedPoint :: "line list" where
  "inheritedPoint = [Point (untaggedPoint ''toString'' 1000 5)]"

definition prototypeField :: "line list" where
  "prototypeField =
     [Metric ''__proto__'' ''trend'' ''default'',
      Point (untaggedPoint ''type'' 1000 5)]"

definition inheritedStatus :: "line list" where
  "inheritedStatus =
     [Metric ''http_reqs'' ''counter'' ''default'',
      Point (taggedPoint ''http_reqs'' 1000 1 ''__proto__'')]"

definition hugeSamples :: "line list" where
  "hugeSamples =
     [Metric ''http_req_duration'' ''trend'' ''time'',
      Point (taggedPoint ''http_req_duration'' 1000 (10 ^ 308) ''200''),
      Point (taggedPoint ''http_req_duration'' 2000 (15 * 10 ^ 307) ''200'')]"

section \<open>The line loop\<close>

lemma samples_trackPoint [simp]: "samples (trackPoint p ms st) = samples st"
  by (simp add: trackPoint_def trackTimes_def Let_def split: prod.splits)

lemma samples_defineMetric [simp]: "samples (defineMetric n t c st) = samples st"
  by (simp add: defineMetric_def)

lemma attributed_Point:
  "attributed m [Point p] =
     (if metric p = m \<and> passesFilter p \<and> m \<notin> set protoKeys then [data_value p] else [])"
  by (simp add: attributed_def)

lemma samplesAt_collectSample:
  "samplesAt (collectSample p st) m = samplesAt st m @ attributed m [Point p]"
proof (cases "metric p = ''http_req_duration'' \<and> \<not> isStatus200 p")
  case True
  then show ?thesis
    by (simp add: attributed_Point collectSample_def passesFilter_def isStatus200_def)
next
  case False
  then have pf: "passesFilter p" by (auto simp: passesFilter_def isStatus200_def)
  show ?thesis
  proof (cases "metric p \<in> set protoKeys")
    case True
    have "collectSample p st = st\<lparr>errorsLogged := Suc (errorsLogged st)\<rparr>"
      using False True unfolding collectSample_def by (simp only: if_False if_True)
    then show ?thesis using True
      by (auto simp: attributed_Point samplesAt_def)
  next
    case nk: False
    have "collectSample p st =
            st\<lparr>samples := AList.update (metric p) (samplesAt st (metric p) @ [data_value p])
                 (samples st)\<rparr>"
      using False nk unfolding collectSample_def samplesAt_def by (simp only: if_False)
    then show ?thesis using pf nk
      by (auto simp: attributed_Point samplesAt_def update_conv')
  qed
qed

lemma samplesAt_cong: "samples st = samples st' \<Longrightarrow> samplesAt st m = samplesAt st' m"
  by (simp add: samplesAt_def)

lemma samplesAt_processLine:
  "samplesAt (processLine l st) m = samplesAt st m @ attributed m [l]"
proof (cases l)
  case (Point p)
  have "samplesAt (case data_time p of None \<Rightarrow> st | Some ms \<Rightarrow> trackPoint p ms st) m = samplesAt st m"
    by (rule samplesAt_cong) (simp split: option.splits)
  then show ?thesis using Point by (simp only: processLine.simps samplesAt_collectSample)
qed (simp_all add: attributed_def samplesAt_def)

lemma attributed_Cons: "attributed m (l # ls) = attributed m [l] @ attributed m ls"
  by (cases l) (simp_all add: attributed_def)

lemma samplesAt_fold:
  "samplesAt (fold processLine ls st) m = samplesAt st m @ attributed m ls"
proof (induction ls arbitrary: st)
  case Nil
  show ?case by (simp add: attributed_def)
next
  case (Cons l ls)
  show ?case by (simp add: Cons.IH samplesAt_processLine attributed_Cons[of m l ls])
qed

lemma samplesAt_processLines: "samplesAt (processLines ls) m = attributed m ls"
  by (simp add: processLines_def samplesAt_fold) (simp add: samplesAt_def initState_def)

lemma floorIndex_div: "floorIndex len (rat_of_nat a / rat_of_nat b) = (len * a) div b"
proof -
  have "rat_of_nat len * (rat_of_nat a / rat_of_nat b) = rat_of_nat (len * a) / rat_of_nat b"
    by simp
  then show ?thesis
    unfolding floorIndex_def by (simp only: floor_divide_of_nat_eq nat_int)
qed

lemma floorIndex_90: "floorIndex len (9 / 10) = (len * 9) div 10"
  using floorIndex_div[of len 9 10] by simp

lemma floorIndex_95: "floorIndex len (95 / 100) = (len * 95) div 100"
  using floorIndex_div[of len 95 100] by simp

lemma floorIndex_99: "floorIndex len (99 / 100) = (len * 99) div 100"
  using floorIndex_div[of len 99 100] by simp

lemma sort_eq_Nil [simp]: "(sort vs = []) = (vs = [])"
  using length_sort[of "\<lambda>x. x" vs] by (metis length_0_conv)

lemma lookupMetric_Own: "(lookupMetric ms k = Own e) = (map_of ms k = Some e)"
  by (simp add: lookupMetric_def split: option.splits)

lemma lookupMetric_Inherited: "lookupMetric ms k = Inherited \<Longrightarrow> map_of ms k = None"
  by (simp add: lookupMetric_def split: option.splits)

lemma lookupMetric_update:
  "map_of ms k' = Some e \<Longrightarrow> k \<noteq> k' \<Longrightarrow>
   lookupMetric (AList.update k' e' ms) k = lookupMetric ms k"
  by (auto simp: lookupMetric_def update_conv' split: option.splits)

lemma computeStatistics_lookup:
  "distinct (map fst smp) \<Longrightarrow> computeStatistics smp ms = Inr ms' \<Longrightarrow>
   map_of ms' m =
     (case map_of ms m of
        None \<Rightarrow> None
      | Some e \<Rightarrow>
          Some (case map_of smp m of
                  None \<Rightarrow> e
                | Some vs \<Rightarrow> if vs = [] then e else e\<lparr>stats := Some (statsOf (sort vs))\<rparr>))"
proof (induction smp arbitrary: ms)
  case Nil
  then show ?case by (simp split: option.splits)
next
  case (Cons kv rest)
  obtain k vs where kv: "kv = (k, vs)" by (cases kv)
  have d: "distinct (map fst rest)" and nk: "map_of rest k = None"
    using Cons.prems(1) kv by (auto simp: map_of_eq_None_iff)
  show ?case
  proof (cases "vs = []")
    case True
    then have "computeStatistics rest ms = Inr ms'" using Cons.prems(2) kv by simp
    from Cons.IH[OF d this] show ?thesis using True kv nk
      by (auto split: option.splits)
  next
    case False
    show ?thesis
    proof (cases "lookupMetric ms k")
      case (Own e)
      then have e: "map_of ms k = Some e" by (simp add: lookupMetric_Own)
      have r: "computeStatistics rest (AList.update k (e\<lparr>stats := Some (statsOf (sort vs))\<rparr>) ms) = Inr ms'"
        using Cons.prems(2) kv False Own by (simp add: Let_def)
      from Cons.IH[OF d r] show ?thesis using False kv nk e
        by (auto simp: update_conv' split: option.splits)
    next
      case Inherited
      then have n: "map_of ms k = None" by (rule lookupMetric_Inherited)
      have r: "computeStatistics rest ms = Inr ms'"
        using Cons.prems(2) kv False Inherited by (simp add: Let_def)
      from Cons.IH[OF d r] show ?thesis using False kv nk n
        by (auto split: option.splits)
    next
      case Undefined
      then show ?thesis using Cons.prems(2) kv False by (simp add: Let_def)
    qed
  qed
qed

lemma computeStatistics_throws:
  "(k, vs) \<in> set smp \<Longrightarrow> vs \<noteq> [] \<Longrightarrow> lookupMetric ms k = Undefined \<Longrightarrow>
   computeStatistics smp ms = Inl TypeError"
proof (induction smp arbitrary: ms)
  case Nil
  then show ?case by simp
next
  case (Cons kv rest)
  obtain k' vs' where kv: "kv = (k', vs')" by (cases kv)
  show ?case
  proof (cases "kv = (k, vs)")
    case True
    then show ?thesis using Cons.prems by (simp add: Let_def)
  next
    case False
    then have m: "(k, vs) \<in> set rest" using Cons.prems(1) by simp
    show ?thesis
    proof (cases "vs' = []")
      case True
      then show ?thesis using kv Cons.IH[OF m Cons.prems(2) Cons.prems(3)] by simp
    next
      case ne: False
      show ?thesis
      proof (cases "lookupMetric ms k'")
        case (Own e)
        then have e: "map_of ms k' = Some e" by (simp add: lookupMetric_Own)
        have "k \<noteq> k'" using Own Cons.prems(3) by auto
        then have "lookupMetric (AList.update k' (e\<lparr>stats := Some (statsOf (sort vs'))\<rparr>) ms) k
                     = Undefined"
          using Cons.prems(3) by (simp add: lookupMetric_update[OF e])
        from Cons.IH[OF m Cons.prems(2) this] show ?thesis using ne Own kv
          by (simp add: Let_def)
      next
        case Inherited
        then show ?thesis using kv ne Cons.IH[OF m Cons.prems(2) Cons.prems(3)]
          by (simp add: Let_def)
      next
        case Undefined
        then show ?thesis using kv ne by (simp add: Let_def)
      qed
    qed
  qed
qed

lemma list_all_update:
  "list_all P al \<Longrightarrow> P (k, v) \<Longrightarrow> list_all P (AList.update k v al)"
  by (induction al) auto

lemma metrics_trackPoint [simp]: "metrics (trackPoint p ms st) = metrics st"
  by (simp add: trackPoint_def trackTimes_def Let_def split: prod.splits)

lemma metrics_collectSample [simp]: "metrics (collectSample p st) = metrics st"
  by (simp add: collectSample_def)

lemma samplesOk_collectSample: "samplesOk st \<Longrightarrow> samplesOk (collectSample p st)"
  unfolding samplesOk_def collectSample_def
  by (simp add: distinct_update list_all_update)

lemma samplesOk_processLine: "samplesOk st \<Longrightarrow> samplesOk (processLine l st)"
proof (cases l)
  case (Point p)
  assume ok: "samplesOk st"
  have "samplesOk (case data_time p of None \<Rightarrow> st | Some ms \<Rightarrow> trackPoint p ms st)"
    using ok by (simp add: samplesOk_def split: option.splits)
  then show ?thesis using Point by (simp add: samplesOk_collectSample)
qed (simp_all add: samplesOk_def)

lemma samplesOk_fold: "samplesOk st \<Longrightarrow> samplesOk (fold processLine ls st)"
  by (induction ls arbitrary: st) (simp_all add: samplesOk_processLine)

lemma samplesOk_processLines: "samplesOk (processLines ls)"
  unfolding processLines_def by (rule samplesOk_fold) (simp add: samplesOk_def initState_def)

lemma samples_lookup:
  "map_of (samples (processLines ls)) m =
     (if attributed m ls = [] then None else Some (attributed m ls))"
proof (cases "map_of (samples (processLines ls)) m")
  case None
  then show ?thesis using samplesAt_processLines[of ls m] by (simp add: samplesAt_def)
next
  case (Some vs)
  then have "(m, vs) \<in> set (samples (processLines ls))" by (rule map_of_SomeD)
  then have "vs \<noteq> []" using samplesOk_processLines[of ls]
    by (auto simp: samplesOk_def list_all_iff)
  then show ?thesis using Some samplesAt_processLines[of ls m] by (simp add: samplesAt_def)
qed

lemma noStats_processLine: "noStats st \<Longrightarrow> noStats (processLine l st)"
  by (cases l) (auto simp: noStats_def defineMetric_def list_all_update split: option.splits)

lemma noStats_fold: "noStats st \<Longrightarrow> noStats (fold processLine ls st)"
  by (induction ls arbitrary: st) (simp_all add: noStats_processLine)

lemma noStats_lookup:
  "map_of (metrics (processLines ls)) m = Some e \<Longrightarrow> stats e = None"
proof -
  assume a: "map_of (metrics (processLines ls)) m = Some e"
  have "noStats (processLines ls)"
    unfolding processLines_def by (rule noStats_fold) (simp add: noStats_def initState_def)
  moreover have "(m, e) \<in> set (metrics (processLines ls))" using a by (rule map_of_SomeD)
  ultimately show ?thesis by (auto simp: noStats_def list_all_iff)
qed

lemma isDefined_processLine:
  "isDefined (processLine l st) n = (isDefined st n \<or> n \<in> set (metricNames [l]))"
  by (cases l) (auto simp: isDefined_def defineMetric_def update_conv' split: option.splits)

lemma metricNames_Cons: "metricNames (l # ls) = metricNames [l] @ metricNames ls"
  by (cases l) simp_all

lemma isDefined_fold:
  "isDefined (fold processLine ls st) n = (isDefined st n \<or> n \<in> set (metricNames ls))"
proof (induction ls arbitrary: st)
  case Nil
  show ?case by simp
next
  case (Cons l ls)
  have "isDefined (fold processLine (l # ls) st) n =
          (isDefined (processLine l st) n \<or> n \<in> set (metricNames ls))"
    by (simp add: Cons.IH)
  also have "\<dots> = (isDefined st n \<or> n \<in> set (metricNames [l] @ metricNames ls))"
    by (simp only: isDefined_processLine set_append Un_iff disj_assoc)
  finally show ?case by (simp only: metricNames_Cons[of l ls])
qed

lemma isDefined_processLines:
  "isDefined (processLines ls) n = (n \<in> set (metricNames ls))"
  by (simp add: processLines_def isDefined_fold) (simp add: isDefined_def initState_def)

lemma lookupMetric_processLines:
  assumes "n \<notin> set (metricNames ls)" and "n \<notin> set protoKeys"
    and "n \<in> set entryFields \<longrightarrow> ''__proto__'' \<notin> set (metricNames ls)"
  shows "lookupMetric (metrics (processLines ls)) n = Undefined"
proof -
  have a: "map_of (metrics (processLines ls)) n = None"
    using assms(1) isDefined_processLines[of ls n] by (simp add: isDefined_def)
  have b: "n \<in> set entryFields \<Longrightarrow> map_of (metrics (processLines ls)) ''__proto__'' = None"
    using assms(3) isDefined_processLines[of ls "''__proto__''"] by (simp add: isDefined_def)
  show ?thesis using a b assms(2) by (auto simp: lookupMetric_def)
qed

lemma run_lookup:
  assumes "processK6Output ls = Inr r"
  shows "map_of (r_metrics r) m =
     (case map_of (metrics (processLines ls)) m of
        None \<Rightarrow> None
      | Some e \<Rightarrow>
          Some (if attributed m ls = [] then e
                else e\<lparr>stats := Some (statsOf (sort (attributed m ls)))\<rparr>))"
proof -
  from assms obtain ms' where
    cs: "computeStatistics (samples (processLines ls)) (metrics (processLines ls)) = Inr ms'"
    and r: "r_metrics r = ms'"
    by (auto simp: processK6Output_def finish_def Let_def split: sum.splits)
  have d: "distinct (map fst (samples (processLines ls)))"
    using samplesOk_processLines[of ls] by (simp add: samplesOk_def)
  show ?thesis
    unfolding r computeStatistics_lookup[OF d cs, of m] samples_lookup
    by (simp split: option.splits)
qed

lemma statsOf_count: "count (statsOf s) = length s"
  by (simp add: statsOf_def Let_def)

lemma statsOf_min: "min_stat (statsOf s) = s ! 0"
  by (simp add: statsOf_def Let_def)

lemma statsOf_max: "max_stat (statsOf s) = s ! (length s - 1)"
  by (simp add: statsOf_def Let_def)

lemma statsOf_med:
  "med (statsOf s) =
     (if odd (length s) then Num (s ! (length s div 2))
      else over (plus_js (Num (s ! (length s div 2 - 1))) (Num (s ! (length s div 2)))) 2)"
  by (simp add: statsOf_def Let_def even_iff_mod_2_eq_zero)

lemma statsOf_p90: "p90 (statsOf s) = s ! (length s * 9 div 10)"
  unfolding statsOf_def Let_def floorIndex_90 by simp

lemma statsOf_p95: "p95 (statsOf s) = s ! (length s * 95 div 100)"
  unfolding statsOf_def Let_def floorIndex_95 by simp

lemma statsOf_p99: "p99 (statsOf s) = s ! (length s * 99 div 100)"
  unfolding statsOf_def Let_def floorIndex_99 by simp

lemma plus_js_finite:
  "2 * \<bar>a\<bar> < overflowBound \<Longrightarrow> 2 * \<bar>b\<bar> < overflowBound \<Longrightarrow>
   plus_js (Num a) (Num b) = Num (a + b)"
  by (auto simp: fl_def)

lemma statsOf_med_finite:
  assumes "list_all (\<lambda>v. 2 * \<bar>v\<bar> < overflowBound) s" and "s \<noteq> []"
  shows "med (statsOf s) =
     Num (if odd (length s) then s ! (length s div 2)
          else (s ! (length s div 2 - 1) + s ! (length s div 2)) / 2)"
proof -
  have b: "\<And>i. i < length s \<Longrightarrow> 2 * \<bar>s ! i\<bar> < overflowBound"
    using assms(1) by (simp add: list_all_length)
  have l: "0 < length s" using assms(2) by simp
  have "length s div 2 - 1 < length s" "length s div 2 < length s" using l by arith+
  then have "plus_js (Num (s ! (length s div 2 - 1))) (Num (s ! (length s div 2))) =
               Num (s ! (length s div 2 - 1) + s ! (length s div 2))"
    using b by (intro plus_js_finite) blast+
  then show ?thesis by (simp add: statsOf_med)
qed

lemma statsOf_ordered:
  assumes "sorted s" and "s \<noteq> []" and "list_all (\<lambda>v. 2 * \<bar>v\<bar> < overflowBound) s"
  shows "le_js (Num (min_stat (statsOf s))) (med (statsOf s)) \<and>
         le_js (med (statsOf s)) (Num (p90 (statsOf s))) \<and>
         p90 (statsOf s) \<le> p95 (statsOf s) \<and> p95 (statsOf s) \<le> p99 (statsOf s) \<and>
         p99 (statsOf s) \<le> max_stat (statsOf s)"
proof -
  define N where "N = length s"
  define md where "md = (if odd N then s ! (N div 2) else (s ! (N div 2 - 1) + s ! (N div 2)) / 2)"
  have N: "0 < N" using assms(2) by (simp add: N_def)
  have mono: "\<And>i j. i \<le> j \<Longrightarrow> j < N \<Longrightarrow> s ! i \<le> s ! j"
    using assms(1) by (simp add: N_def sorted_nth_mono)
  have i1: "N div 2 \<le> N * 9 div 10" by arith
  have i2: "N * 9 div 10 \<le> N * 95 div 100" by arith
  have i3: "N * 95 div 100 \<le> N * 99 div 100" by arith
  have i4: "N * 99 div 100 \<le> N - 1" using N by arith
  have i5: "N - 1 < N" using N by simp
  have b99: "N * 99 div 100 < N" using i4 i5 by (rule le_less_trans)
  have b95: "N * 95 div 100 < N" using i3 b99 by (rule le_less_trans)
  have b90: "N * 9 div 10 < N" using i2 b95 by (rule le_less_trans)
  have b50: "N div 2 < N" using i1 b90 by (rule le_less_trans)
  have lo1: "s ! 0 \<le> s ! (N div 2 - 1)" using mono[of 0 "N div 2 - 1"] b50 by simp
  have lo2: "s ! (N div 2 - 1) \<le> s ! (N div 2)" using mono[of "N div 2 - 1" "N div 2"] b50 by simp
  have lo3: "s ! 0 \<le> s ! (N div 2)" using lo1 lo2 by (rule order_trans)
  have med: "med (statsOf s) = Num md"
    using statsOf_med_finite[OF assms(3,2)] by (simp add: md_def N_def)
  have m_lo: "s ! 0 \<le> md" using lo1 lo2 lo3 by (auto simp: md_def)
  have m_hi: "md \<le> s ! (N div 2)" using lo2 by (auto simp: md_def)
  have "md \<le> s ! (N * 9 div 10)" using m_hi mono[OF i1 b90] by (rule order_trans)
  moreover have "s ! (N * 9 div 10) \<le> s ! (N * 95 div 100)" using mono[OF i2 b95] .
  moreover have "s ! (N * 95 div 100) \<le> s ! (N * 99 div 100)" using mono[OF i3 b99] .
  moreover have "s ! (N * 99 div 100) \<le> s ! (N - 1)" using mono[OF i4 i5] .
  ultimately show ?thesis using m_lo
    unfolding med statsOf_min statsOf_max statsOf_p90 statsOf_p95 statsOf_p99 N_def[symmetric]
    by simp
qed

lemma run_stats:
  assumes "processK6Output ls = Inr r" and "attributed m ls \<noteq> []"
    and "m \<in> set (metricNames ls)"
  shows "\<exists>e. map_of (r_metrics r) m = Some e \<and>
             stats e = Some (statsOf (sort (attributed m ls)))"
proof -
  have "isDefined (processLines ls) m" using assms(3) by (simp add: isDefined_processLines)
  then obtain e0 where "map_of (metrics (processLines ls)) m = Some e0"
    by (auto simp: isDefined_def)
  then show ?thesis using run_lookup[OF assms(1), of m] assms(2) by simp
qed

lemma allDefined_update:
  "allDefined smp ms \<Longrightarrow> allDefined smp (AList.update k v ms)"
  by (auto simp: allDefined_def list_all_iff update_conv')

lemma computeStatistics_returns:
  "allDefined smp ms \<Longrightarrow> \<exists>ms'. computeStatistics smp ms = Inr ms'"
proof (induction smp arbitrary: ms)
  case Nil
  show ?case by simp
next
  case (Cons kv rest)
  obtain k vs where kv: "kv = (k, vs)" by (cases kv)
  have r: "allDefined rest ms" using Cons.prems by (simp add: allDefined_def)
  show ?case
  proof (cases "vs = []")
    case True
    then show ?thesis using Cons.IH[OF r] kv by simp
  next
    case False
    then obtain e where e: "map_of ms k = Some e"
      using Cons.prems kv by (auto simp: allDefined_def)
    then have "lookupMetric ms k = Own e" by (simp add: lookupMetric_Own)
    with Cons.IH[OF allDefined_update[OF r]] show ?thesis
      using False kv by (simp add: Let_def)
  qed
qed

lemma allDefined_processLines:
  assumes "list_all (\<lambda>p. passesFilter p \<longrightarrow> metric p \<in> set (metricNames ls)) (pointsOf ls)"
  shows "allDefined (samples (processLines ls)) (metrics (processLines ls))"
  unfolding allDefined_def list_all_iff
proof
  fix kv assume m: "kv \<in> set (samples (processLines ls))"
  obtain k vs where kv: "kv = (k, vs)" by (cases kv)
  have "distinct (map fst (samples (processLines ls)))"
    using samplesOk_processLines[of ls] by (simp add: samplesOk_def)
  then have "map_of (samples (processLines ls)) k = Some vs"
    using m kv by simp
  then have "attributed k ls \<noteq> []"
    by (simp add: samples_lookup split: if_splits)
  then obtain p where p: "p \<in> set (pointsOf ls)" "metric p = k" "passesFilter p"
    by (auto simp: attributed_def filter_empty_conv split: if_splits)
  then have "k \<in> set (metricNames ls)" using assms by (auto simp: list_all_iff)
  then have "isDefined (processLines ls) k" by (simp add: isDefined_processLines)
  then show "snd kv = [] \<or> map_of (metrics (processLines ls)) (fst kv) \<noteq> None"
    using kv by (simp add: isDefined_def)
qed

lemma run_returns:
  assumes "list_all (\<lambda>p. passesFilter p \<longrightarrow> metric p \<in> set (metricNames ls)) (pointsOf ls)"
  shows "\<exists>d. processK6Output ls = Inr d"
proof -
  from computeStatistics_returns[OF allDefined_processLines[OF assms]]
  obtain ms' where
    "computeStatistics (samples (processLines ls)) (metrics (processLines ls)) = Inr ms'"
    by blast
  then show ?thesis by (simp add: processK6Output_def finish_def Let_def)
qed

section \<open>Percentiles and median\<close>

lemma tenSamples_runs: "\<exists>r. processK6Output tenSamples = Inr r"
  by (rule run_returns) (simp add: tenSamples_def taggedPoint_def)

lemma tenSamples_samples:
  "samplesAt (processLines tenSamples) ''http_req_duration'' =
     [10, 20, 30, 40, 50, 60, 70, 80, 90, 100]"
  unfolding samplesAt_processLines
  by (simp add: attributed_def protoKeys_def tenSamples_def taggedPoint_def passesFilter_def
      tagStatus_def)

lemma prototypeField_state:
  "processLines prototypeField =
     \<lparr>metrics = [(''__proto__'',
             \<lparr>mtype = ''trend'', contains = ''default'', values_m = [], stats = None,
              unit = None\<rparr>)],
      samples = [(''type'', [5])],
      tsd = \<lparr>timestamps = [], vus = [], responseTime = [], requests = [],
              dataTransfer = [], statusCodes = [], responseTimeDistribution = ([], [])\<rparr>,
      successfulResponses = [], testStartTime = Some 1000, testEndTime = Some 1000,
      errorsLogged = 0\<rparr>"
  by code_simp

lemma prototypeField_run:
  "processK6Output prototypeField =
     Inr \<lparr>r_metrics = [(''__proto__'',
             \<lparr>mtype = ''trend'', contains = ''default'', values_m = [], stats = None,
              unit = None\<rparr>)],
          testDuration = 0,
          timeseries = \<lparr>timestamps = [], vus = [], responseTime = [], requests = [],
              dataTransfer = [], statusCodes = [], responseTimeDistribution = ([], [])\<rparr>\<rparr>"
  by (simp add: processK6Output_def finish_def lookupMetric_def duration_def
      responseTimeBuckets_def ownEntries_def protoKeys_def entryFields_def
      prototypeField_state)

text \<open>
  Claim C1, as stated, fails for a metric that no \<^verbatim>\<open>Metric\<close> record defines. In a log
  that defines a metric named \<^verbatim>\<open>__proto__\<close>, the entry becomes the prototype of
  \<^verbatim>\<open>metrics\<close>; a point of a metric named \<^verbatim>\<open>type\<close> is then sampled, \<^verbatim>\<open>metrics['type']\<close>
  reads the inherited string \<^verbatim>\<open>'trend'\<close>, and line 156 assigns the statistics to a
  property of that string, which drops them. The run succeeds, the metric has one
  sample, and the snapshot holds no entry and no statistics for it.
\<close>

theorem percentiles_counterexample:
  "samplesAt (processLines prototypeField) ''type'' = [5] \<and>
   (case processK6Output prototypeField of
      Inl err \<Rightarrow> False
    | Inr r \<Rightarrow> map_of (r_metrics r) ''type'' = None \<and> ownMetrics (r_metrics r) = [])"
proof -
  have "samplesAt (processLines prototypeField) ''type'' = [5]"
    unfolding samplesAt_processLines
    by (simp add: attributed_def protoKeys_def prototypeField_def untaggedPoint_def
        passesFilter_def)
  then show ?thesis
    by (simp add: prototypeField_run ownMetrics_def objectEntries_def)
qed

text \<open>
  Claim C1, amended. When \<^verbatim>\<open>processK6Output\<close> returns and metric \<open>m\<close>, defined by a
  \<^verbatim>\<open>Metric\<close> record, has accumulated the samples \<open>vs\<close>, \<open>N = length vs > 0\<close>, the
  statistics stored for \<open>m\<close> are read off the ascending sort of \<open>vs\<close>: \<open>p90\<close>, \<open>p95\<close>
  and \<open>p99\<close> are the values at the sorted indices \<open>\<lfloor>N \<times> 0.9\<rfloor>\<close>, \<open>\<lfloor>N \<times> 0.95\<rfloor>\<close> and
  \<open>\<lfloor>N \<times> 0.99\<rfloor>\<close> (nearest rank, no interpolation); the median is the middle value for
  odd \<open>N\<close> and, for even \<open>N\<close>, the sum of the two middle values, as a double addition,
  divided by two. For the ten samples 10, 20, ..., 100 the index of \<open>p90\<close> is 9, the
  value 100.
\<close>

theorem percentiles_nearest_rank:
  assumes "processK6Output ls = Inr r"
    and "m \<in> set (metricNames ls)"
    and "samplesAt (processLines ls) m = vs"
    and "vs \<noteq> []"
  shows "\<exists>e st. map_of (r_metrics r) m = Some e \<and> stats e = Some st \<and>
           count st = length vs \<and>
           p90 st = sort vs ! (length vs * 9 div 10) \<and>
           p95 st = sort vs ! (length vs * 95 div 100) \<and>
           p99 st = sort vs ! (length vs * 99 div 100) \<and>
           med st = (if odd (length vs) then Num (sort vs ! (length vs div 2))
                     else over (plus_js (Num (sort vs ! (length vs div 2 - 1)))
                                  (Num (sort vs ! (length vs div 2)))) 2)"
proof -
  have a: "attributed m ls = vs" using assms(3) by (simp add: samplesAt_processLines)
  from run_stats[OF assms(1) _ assms(2)] assms(4) a obtain e where
    e: "map_of (r_metrics r) m = Some e" "stats e = Some (statsOf (sort vs))" by auto
  have l: "length (sort vs) = length vs" by simp
  show ?thesis
    using e statsOf_count[of "sort vs"] statsOf_p90[of "sort vs"] statsOf_p95[of "sort vs"]
      statsOf_p99[of "sort vs"] statsOf_med[of "sort vs"]
    unfolding l by blast
qed

theorem percentiles_nearest_rank_witness:
  "case processK6Output tenSamples of
     Inl err \<Rightarrow> False
   | Inr r \<Rightarrow>
       (case map_of (r_metrics r) ''http_req_duration'' of
          None \<Rightarrow> False
        | Some e \<Rightarrow>
            map_option p90 (stats e) = Some 100 \<and> map_option med (stats e) = Some (Num 55) \<and>
            map_option count (stats e) = Some 10)"
proof -
  obtain r where r: "processK6Output tenSamples = Inr r"
    using tenSamples_runs by blast
  have d: "''http_req_duration'' \<in> set (metricNames tenSamples)"
    by (simp add: tenSamples_def)
  have ne: "[10, 20, 30, 40, 50, 60, 70, 80, 90, 100] \<noteq> ([] :: rat list)" by simp
  from percentiles_nearest_rank[OF r d tenSamples_samples ne] obtain e st where
    e: "map_of (r_metrics r) ''http_req_duration'' = Some e" and st: "stats e = Some st"
    and c: "count st = length [10, 20, 30, 40, 50, 60, 70, 80, 90, 100 :: rat]"
    and p: "p90 st = sort [10, 20, 30, 40, 50, 60, 70, 80, 90, 100]
                       ! (length [10, 20, 30, 40, 50, 60, 70, 80, 90, 100 :: rat] * 9 div 10)"
    and m: "med st =
       (if odd (length [10, 20, 30, 40, 50, 60, 70, 80, 90, 100 :: rat])
        then Num (sort [10, 20, 30, 40, 50, 60, 70, 80, 90, 100]
               ! (length [10, 20, 30, 40, 50, 60, 70, 80, 90, 100 :: rat] div 2))
        else over (plus_js
                (Num (sort [10, 20, 30, 40, 50, 60, 70, 80, 90, 100]
                  ! (length [10, 20, 30, 40, 50, 60, 70, 80, 90, 100 :: rat] div 2 - 1)))
                (Num (sort [10, 20, 30, 40, 50, 60, 70, 80, 90, 100]
                  ! (length [10, 20, 30, 40, 50, 60, 70, 80, 90, 100 :: rat] div 2)))) 2)"
    by blast
  have "p90 st = 100" using p by simp
  moreover have "med st = Num 55" using m by (simp add: fl_def overflowBound_def)
  moreover have "count st = 10" using c by simp
  ultimately show ?thesis by (simp add: r e st)
qed

section \<open>Ordering of the statistics\<close>

lemma hugeSamples_runs: "\<exists>r. processK6Output hugeSamples = Inr r"
  by (rule run_returns) (simp add: hugeSamples_def taggedPoint_def)

lemma hugeSamples_attributed:
  "attributed ''http_req_duration'' hugeSamples = [10 ^ 308, 15 * 10 ^ 307]"
  by (simp add: attributed_def protoKeys_def hugeSamples_def taggedPoint_def passesFilter_def
      tagStatus_def)

lemma hugeSamples_stats:
  "count (statsOf (sort [10 ^ 308, 15 * 10 ^ 307])) = 2 \<and>
   med (statsOf (sort [10 ^ 308, 15 * 10 ^ 307])) = PosInf \<and>
   p90 (statsOf (sort [10 ^ 308, 15 * 10 ^ 307])) = 15 * 10 ^ 307"
  by (simp add: statsOf_count statsOf_med statsOf_p90 fl_def overflowBound_def inf_of_def)

text \<open>
  Claim C6, as stated, fails: the sum of the two middle values is a double addition and
  overflows for two samples near the top of the range. For the samples \<open>10^308\<close> and
  \<open>1.5 \<times> 10^308\<close> of a defined metric the median is \<open>Infinity\<close>, above \<open>p90\<close>, the
  larger sample.
\<close>

theorem statistics_ordered_counterexample:
  "case processK6Output hugeSamples of
     Inl err \<Rightarrow> False
   | Inr r \<Rightarrow>
       (case map_of (r_metrics r) ''http_req_duration'' of
          None \<Rightarrow> False
        | Some e \<Rightarrow>
            (case stats e of
               None \<Rightarrow> False
             | Some st \<Rightarrow>
                 count st = 2 \<and> med st = PosInf \<and> p90 st = 15 * 10 ^ 307 \<and>
                 \<not> le_js (med st) (Num (p90 st))))"
proof -
  obtain r where r: "processK6Output hugeSamples = Inr r"
    using hugeSamples_runs by blast
  have d: "''http_req_duration'' \<in> set (metricNames hugeSamples)"
    by (simp add: hugeSamples_def)
  have ne: "attributed ''http_req_duration'' hugeSamples \<noteq> []"
    by (simp add: hugeSamples_attributed)
  from run_stats[OF r ne d] obtain e where
    e: "map_of (r_metrics r) ''http_req_duration'' = Some e"
    and st: "stats e = Some (statsOf (sort [10 ^ 308, 15 * 10 ^ 307]))"
    unfolding hugeSamples_attributed by blast
  show ?thesis unfolding r using hugeSamples_stats by (simp add: e st)
qed

text \<open>
  Claim C6, amended. Whenever \<^verbatim>\<open>processK6Output\<close> returns statistics for a metric
  whose samples all have a magnitude below \<open>2^1023 - 2^969\<close>, so that the sum of two of
  them is finite, their count is positive and
  \<open>min \<le> median \<le> p90 \<le> p95 \<le> p99 \<le> max\<close>.
\<close>

theorem statistics_ordered:
  assumes "processK6Output ls = Inr r"
    and "map_of (r_metrics r) m = Some e"
    and "stats e = Some st"
    and "list_all (\<lambda>v. 2 * \<bar>v\<bar> < overflowBound) (samplesAt (processLines ls) m)"
  shows "0 < count st \<and> le_js (Num (min_stat st)) (med st) \<and>
         le_js (med st) (Num (p90 st)) \<and> p90 st \<le> p95 st \<and>
         p95 st \<le> p99 st \<and> p99 st \<le> max_stat st"
proof -
  from run_lookup[OF assms(1), of m] assms(2) obtain e0 where
    e0: "map_of (metrics (processLines ls)) m = Some e0"
    and e: "e = (if attributed m ls = [] then e0
                 else e0\<lparr>stats := Some (statsOf (sort (attributed m ls)))\<rparr>)"
    by (auto split: option.splits)
  have ne: "attributed m ls \<noteq> []"
    using e assms(3) noStats_lookup[OF e0] by (auto split: if_splits)
  then have st: "st = statsOf (sort (attributed m ls))" using e assms(3) by simp
  have "0 < count st" using ne by (simp add: st statsOf_count)
  moreover have "sorted (sort (attributed m ls))" "sort (attributed m ls) \<noteq> []"
    using ne by simp_all
  moreover have "list_all (\<lambda>v. 2 * \<bar>v\<bar> < overflowBound) (sort (attributed m ls))"
    using assms(4) by (simp add: samplesAt_processLines list_all_iff)
  ultimately show ?thesis using statsOf_ordered[of "sort (attributed m ls)"] st by simp
qed

theorem statistics_ordered_witness:
  "case processK6Output tenSamples of
     Inl err \<Rightarrow> False
   | Inr r \<Rightarrow>
       (case map_of (r_metrics r) ''http_req_duration'' of
          None \<Rightarrow> False
        | Some e \<Rightarrow>
            (case stats e of
               None \<Rightarrow> False
             | Some st \<Rightarrow>
                 0 < count st \<and> le_js (Num (min_stat st)) (med st) \<and>
                 le_js (med st) (Num (p90 st)) \<and> p90 st \<le> p95 st \<and>
                 p95 st \<le> p99 st \<and> p99 st \<le> max_stat st))"
proof -
  obtain r where r: "processK6Output tenSamples = Inr r"
    using tenSamples_runs by blast
  have d: "''http_req_duration'' \<in> set (metricNames tenSamples)"
    by (simp add: tenSamples_def)
  have ne: "attributed ''http_req_duration'' tenSamples \<noteq> []"
    using tenSamples_samples by (simp add: samplesAt_processLines)
  from run_stats[OF r ne d] obtain e st where
    e: "map_of (r_metrics r) ''http_req_duration'' = Some e" and st: "stats e = Some st"
    by blast
  have b: "list_all (\<lambda>v. 2 * \<bar>v\<bar> < overflowBound)
             (samplesAt (processLines tenSamples) ''http_req_duration'')"
    unfolding tenSamples_samples by (simp add: overflowBound_def)
  from statistics_ordered[OF r e st b] show ?thesis by (simp add: r e st)
qed

section \<open>The sample filter\<close>





section \<open>Local recovery from bad lines\<close>

lemma trackPoint_bump: "trackPoint p ms (bump st) = bump (trackPoint p ms st)"
  by (simp add: trackPoint_def trackTimes_def bump_def Let_def split: prod.splits)

lemma collectSample_bump: "collectSample p (bump st) = bump (collectSample p st)"
  by (simp add: collectSample_def bump_def)

lemma processLine_bump: "processLine l (bump st) = bump (processLine l st)"
proof (cases l)
  case (Point p)
  then show ?thesis
    by (cases "data_time p") (simp_all add: trackPoint_bump collectSample_bump)
qed (simp_all add: bump_def defineMetric_def)

lemma fold_bump: "fold processLine ls (bump st) = bump (fold processLine ls st)"
  by (induction ls arbitrary: st) (simp_all add: processLine_bump)

lemma finish_bump: "finish (bump st) = finish st"
  by (simp add: finish_def bump_def duration_def split: sum.splits)

lemma processLines_append:
  "processLines (xs @ l # ys) = fold processLine ys (processLine l (processLines xs))"
  by (simp add: processLines_def)

text \<open>
  Claim C5. A line on which \<^verbatim>\<open>JSON.parse\<close> throws, inserted anywhere in a log, changes
  nothing but the count of logged errors, which grows by one: the loop state, and with it
  the result of \<^verbatim>\<open>processK6Output\<close>, is that of the log without the line. A JSON
  line whose \<^verbatim>\<open>type\<close> is neither \<^verbatim>\<open>Metric\<close> nor \<^verbatim>\<open>Point\<close> leaves the state as it
  is, the error count included.
\<close>

theorem bad_line_skipped:
  "processLines (xs @ Garbage # ys) =
     (processLines (xs @ ys))\<lparr>errorsLogged := Suc (errorsLogged (processLines (xs @ ys)))\<rparr> \<and>
   processK6Output (xs @ Garbage # ys) = processK6Output (xs @ ys) \<and>
   processLines (xs @ Other # ys) = processLines (xs @ ys)"
proof -
  have g: "processLines (xs @ Garbage # ys) = bump (processLines (xs @ ys))"
    using fold_bump[of ys "processLines xs"]
    by (simp add: processLines_def bump_def)
  have o: "processLines (xs @ Other # ys) = processLines (xs @ ys)"
    by (simp add: processLines_def)
  have "processK6Output (xs @ Garbage # ys) = processK6Output (xs @ ys)"
    by (simp add: processK6Output_def g finish_bump)
  with g o show ?thesis by (simp add: bump_def)
qed

lemma garbledLog_split:
  "garbledLog = take 3 garbledLog @ Garbage # drop 4 garbledLog"
  by (simp add: garbledLog_def)

lemma garbledLog_clean:
  "errorsLogged (processLines (take 3 garbledLog @ drop 4 garbledLog)) = 0 \<and>
   samplesAt (processLines (take 3 garbledLog @ drop 4 garbledLog)) ''http_req_duration''
     = [30, 10, 50, 20, 40]"
  by code_simp

theorem bad_line_skipped_witness:
  "errorsLogged (processLines garbledLog) = 1 \<and>
   samplesAt (processLines garbledLog) ''http_req_duration'' = [30, 10, 50, 20, 40]"
proof -
  from bad_line_skipped[of "take 3 garbledLog" "drop 4 garbledLog"]
  have "processLines (take 3 garbledLog @ Garbage # drop 4 garbledLog) =
          (processLines (take 3 garbledLog @ drop 4 garbledLog))
            \<lparr>errorsLogged :=
               Suc (errorsLogged (processLines (take 3 garbledLog @ drop 4 garbledLog)))\<rparr>"
    by blast
  then have "processLines garbledLog =
          (processLines (take 3 garbledLog @ drop 4 garbledLog))
            \<lparr>errorsLogged :=
               Suc (errorsLogged (processLines (take 3 garbledLog @ drop 4 garbledLog)))\<rparr>"
    using garbledLog_split by simp
  then show ?thesis using garbledLog_clean by (simp add: samplesAt_def)
qed

section \<open>Request totals\<close>

lemma histogramSum_update:
  "histogramSum (AList.update k v obj)
     + (case map_of obj k of None \<Rightarrow> 0 | Some c \<Rightarrow> countOf c)
     = histogramSum obj + countOf v"
  by (induction obj) (auto simp: histogramSum_def)

lemma codesOk_lookup:
  "codesOk obj \<Longrightarrow> map_of obj k = Some v \<Longrightarrow> (v = None) = (k \<in> set protoKeys)"
  by (auto simp: codesOk_def list_all_iff dest!: map_of_SomeD)

lemma codesOk_update:
  "codesOk obj \<Longrightarrow> (v = None) = (k \<in> set protoKeys) \<Longrightarrow> codesOk (AList.update k v obj)"
  unfolding codesOk_def by (rule list_all_update) simp_all

lemma codesOk_countStatus: "codesOk obj \<Longrightarrow> codesOk (countStatus s obj)"
proof -
  assume ok: "codesOk obj"
  show ?thesis
  proof (cases "map_of obj s")
    case None
    then show ?thesis using ok by (simp add: countStatus_def codesOk_update)
  next
    case (Some v)
    show ?thesis
    proof (cases v)
      case None
      then show ?thesis using Some ok by (simp add: countStatus_def)
    next
      case (Some c)
      then have "s \<notin> set protoKeys" using codesOk_lookup[OF ok \<open>map_of obj s = Some v\<close>] by simp
      then show ?thesis using Some \<open>map_of obj s = Some v\<close> ok
        by (simp add: countStatus_def codesOk_update)
    qed
  qed
qed

lemma histogramSum_countStatus:
  assumes "codesOk obj"
  shows "histogramSum (countStatus s obj) =
           histogramSum obj + (if s \<in> set protoKeys then 0 else 1)"
proof (cases "map_of obj s")
  case None
  have p: "''__proto__'' \<in> set protoKeys" by (simp add: protoKeys_def)
  show ?thesis
  proof (cases "s \<in> set protoKeys")
    case True
    then show ?thesis
      using None histogramSum_update[of s None obj]
      by (simp add: countStatus_def countOf_def)
  next
    case False
    then have "s \<noteq> ''__proto__''" using p by auto
    then show ?thesis
      using None False histogramSum_update[of s "Some 1" obj]
      by (simp add: countStatus_def countOf_def)
  qed
next
  case (Some v)
  show ?thesis
  proof (cases v)
    case None
    then have "s \<in> set protoKeys" using codesOk_lookup[OF assms Some] by simp
    then show ?thesis using Some None by (simp add: countStatus_def)
  next
    case c: (Some c)
    then have "s \<notin> set protoKeys" using codesOk_lookup[OF assms Some] by simp
    then show ?thesis
      using Some c histogramSum_update[of s "Some (c + 1)" obj]
      by (simp add: countStatus_def countOf_def)
  qed
qed

lemma statusCodes_collectTimeseries:
  "statusCodes (fst (collectTimeseries p s (t, succ))) = statusCodes t"
  by (simp add: collectTimeseries_def)

lemma statusCodes_trackPoint:
  "statusCodes (tsd (trackPoint p ms st)) = statusCodes (trackStatus p (tsd st))"
proof -
  obtain t' succ' where c: "collectTimeseries p (rat_of_int ms / 1000)
      (trackStatus p (tsd (trackTimes ms st)), successfulResponses (trackTimes ms st)) = (t', succ')"
    by (cases "collectTimeseries p (rat_of_int ms / 1000)
      (trackStatus p (tsd (trackTimes ms st)), successfulResponses (trackTimes ms st))")
  have "statusCodes t' = statusCodes (trackStatus p (tsd (trackTimes ms st)))"
    using statusCodes_collectTimeseries[of p "rat_of_int ms / 1000"
        "trackStatus p (tsd (trackTimes ms st))" "successfulResponses (trackTimes ms st)"] c
    by simp
  moreover have "tsd (trackTimes ms st) = tsd st" by (simp add: trackTimes_def)
  ultimately show ?thesis using c by (simp add: trackPoint_def Let_def)
qed

lemma tsd_collectSample [simp]: "tsd (collectSample p st) = tsd st"
  by (simp add: collectSample_def)

lemma tsd_defineMetric [simp]: "tsd (defineMetric n t c st) = tsd st"
  by (simp add: defineMetric_def)

lemma inHistogram_iff:
  "inHistogram p =
     (metric p = ''http_reqs'' \<and> data_time p \<noteq> None \<and> hasStatus p \<and>
      the (tagStatus p) \<notin> set protoKeys)"
  by (auto simp: inHistogram_def countedStatus_def hasStatus_def split: option.splits)

lemma trackStatus_codes:
  assumes "codesOk (statusCodes t)"
  shows "codesOk (statusCodes (trackStatus p t)) \<and>
         histogramSum (statusCodes (trackStatus p t)) =
           histogramSum (statusCodes t)
             + (if metric p = ''http_reqs'' \<and> hasStatus p \<and> the (tagStatus p) \<notin> set protoKeys
                then 1 else 0)"
  using assms
  by (simp add: trackStatus_def codesOk_countStatus histogramSum_countStatus)

lemma histogram_processLine:
  assumes "codesOk (statusCodes (tsd st))"
  shows "codesOk (statusCodes (tsd (processLine l st))) \<and>
         histogramSum (statusCodes (tsd (processLine l st))) =
           histogramSum (statusCodes (tsd st)) + length (filter inHistogram (pointsOf [l]))"
proof (cases l)
  case (Point p)
  show ?thesis
  proof (cases "data_time p")
    case None
    then show ?thesis using Point assms by (simp add: inHistogram_iff)
  next
    case (Some ms)
    then show ?thesis using Point trackStatus_codes[OF assms, of p]
      by (simp add: statusCodes_trackPoint inHistogram_iff)
  qed
qed (simp_all add: assms)

lemma pointsOf_Cons: "pointsOf (l # ls) = pointsOf [l] @ pointsOf ls"
  by (cases l) simp_all

lemma histogram_fold:
  "codesOk (statusCodes (tsd st)) \<Longrightarrow>
   histogramSum (statusCodes (tsd (fold processLine ls st))) =
     histogramSum (statusCodes (tsd st)) + length (filter inHistogram (pointsOf ls))"
proof (induction ls arbitrary: st)
  case Nil
  show ?case by simp
next
  case (Cons l ls)
  have "length (filter inHistogram (pointsOf (l # ls))) =
        length (filter inHistogram (pointsOf [l])) + length (filter inHistogram (pointsOf ls))"
    by (simp only: pointsOf_Cons[of l ls] filter_append length_append)
  then show ?case
    using histogram_processLine[OF Cons.prems, of l]
    by (simp add: Cons.IH del: pointsOf.simps)
qed

lemma histogramTotal_run:
  assumes "processK6Output ls = Inr d"
  shows "histogramTotal d = length (filter inHistogram (pointsOf ls))"
proof -
  have "statusCodes (timeseries d) = statusCodes (tsd (processLines ls))"
    using assms by (auto simp: processK6Output_def finish_def Let_def split: sum.splits)
  moreover have "codesOk (statusCodes (tsd initState))"
    by (simp add: codesOk_def initState_def)
  ultimately show ?thesis
    using histogram_fold[of initState ls]
    by (simp add: histogramTotal_def processLines_def) (simp add: initState_def histogramSum_def)
qed

lemma totalRequests_run:
  assumes "processK6Output ls = Inr d" and "totalRequests d = Some n"
  shows "n = length (filter (\<lambda>p. metric p = ''http_reqs'') (pointsOf ls))"
proof -
  from assms(2) obtain e st where e: "map_of (r_metrics d) ''http_reqs'' = Some e"
    and st: "stats e = Some st" and n: "n = count st"
    by (auto simp: totalRequests_def split: option.splits)
  from run_lookup[OF assms(1), of "''http_reqs''"] e obtain e0 where
    e0: "map_of (metrics (processLines ls)) ''http_reqs'' = Some e0"
    and ee: "e = (if attributed ''http_reqs'' ls = [] then e0
                  else e0\<lparr>stats := Some (statsOf (sort (attributed ''http_reqs'' ls)))\<rparr>)"
    by (auto split: option.splits)
  have "attributed ''http_reqs'' ls \<noteq> []"
    using ee st noStats_lookup[OF e0] by (auto split: if_splits)
  then have "st = statsOf (sort (attributed ''http_reqs'' ls))" using ee st by simp
  then have "n = length (attributed ''http_reqs'' ls)" using n by (simp add: statsOf_count)
  moreover have "(\<lambda>p. metric p = ''http_reqs'' \<and> passesFilter p) = (\<lambda>p. metric p = ''http_reqs'')"
    by (auto simp: passesFilter_def)
  moreover have "''http_reqs'' \<notin> set protoKeys" by (simp add: protoKeys_def)
  ultimately show ?thesis by (simp add: attributed_def)
qed

lemma totalRequests_value:
  assumes "processK6Output ls = Inr d"
    and "''http_reqs'' \<in> set (metricNames ls)"
    and "filter (\<lambda>p. metric p = ''http_reqs'') (pointsOf ls) \<noteq> []"
  shows "totalRequests d = Some (length (filter (\<lambda>p. metric p = ''http_reqs'') (pointsOf ls)))"
proof -
  have f: "(\<lambda>p. metric p = ''http_reqs'' \<and> passesFilter p) = (\<lambda>p. metric p = ''http_reqs'')"
    by (auto simp: passesFilter_def)
  have np: "''http_reqs'' \<notin> set protoKeys" by (simp add: protoKeys_def)
  have a: "attributed ''http_reqs'' ls =
             map data_value (filter (\<lambda>p. metric p = ''http_reqs'') (pointsOf ls))"
    using np by (simp add: attributed_def f)
  then have ne: "attributed ''http_reqs'' ls \<noteq> []" using assms(3) by simp
  from run_stats[OF assms(1) ne assms(2)] obtain e where
    "map_of (r_metrics d) ''http_reqs'' = Some e"
    "stats e = Some (statsOf (sort (attributed ''http_reqs'' ls)))" by blast
  then show ?thesis by (simp add: totalRequests_def statsOf_count a)
qed

lemma statusCodes_run:
  "processK6Output ls = Inr d \<Longrightarrow> statusCodes (timeseries d) = statusCodes (tsd (processLines ls))"
  by (auto simp: processK6Output_def finish_def Let_def split: sum.splits)

lemma untaggedRequest_points:
  "pointsOf untaggedRequest = [untaggedPoint ''http_reqs'' 1000 1] \<and>
   metricNames untaggedRequest = [''http_reqs'']"
  by (simp add: untaggedRequest_def)

lemma inheritedStatus_points:
  "pointsOf inheritedStatus = [taggedPoint ''http_reqs'' 1000 1 ''__proto__''] \<and>
   metricNames inheritedStatus = [''http_reqs'']"
  by (simp add: inheritedStatus_def)

lemma taggedRequests_points:
  "pointsOf taggedRequests =
     [taggedPoint ''http_reqs'' 1000 1 ''200'', taggedPoint ''http_reqs'' 1100 1 ''500'',
      taggedPoint ''http_reqs'' 1200 1 ''200''] \<and>
   metricNames taggedRequests = [''http_reqs'']"
  by (simp add: taggedRequests_def)

lemma inheritedStatus_codes: "statusCodes (tsd (processLines inheritedStatus)) = []"
  by code_simp

text \<open>
  Claim C7, as stated, fails: a \<^verbatim>\<open>http_reqs\<close> sample without a status tag is counted in
  the summary total and not in the histogram.
\<close>

theorem request_totals_counterexample:
  "case processK6Output untaggedRequest of
     Inl err \<Rightarrow> False
   | Inr d \<Rightarrow> totalRequests d = Some 1 \<and> histogramTotal d = 0"
proof -
  obtain d where d: "processK6Output untaggedRequest = Inr d"
    using run_returns[of untaggedRequest]
    by (auto simp: untaggedRequest_points untaggedPoint_def)
  have "totalRequests d = Some 1"
    using totalRequests_value[OF d]
    by (simp add: untaggedRequest_points untaggedPoint_def)
  moreover have "histogramTotal d = 0"
    using histogramTotal_run[OF d]
    by (simp add: untaggedRequest_points untaggedPoint_def inHistogram_def countedStatus_def
        tagStatus_def)
  ultimately show ?thesis by (simp add: d)
qed

text \<open>
  A status tag named after a member of \<^verbatim>\<open>Object.prototype\<close> is not counted either:
  for \<^verbatim>\<open>__proto__\<close> the histogram stays empty.
\<close>

lemma inheritedStatus_run:
  "case processK6Output inheritedStatus of
     Inl err \<Rightarrow> False
   | Inr d \<Rightarrow>
       totalRequests d = Some 1 \<and> histogramTotal d = 0 \<and> statusCodes (timeseries d) = []"
proof -
  obtain d where d: "processK6Output inheritedStatus = Inr d"
    using run_returns[of inheritedStatus]
    by (auto simp: inheritedStatus_points taggedPoint_def)
  have "totalRequests d = Some 1"
    using totalRequests_value[OF d]
    by (simp add: inheritedStatus_points taggedPoint_def)
  moreover have "statusCodes (timeseries d) = []"
    using statusCodes_run[OF d] by (simp add: inheritedStatus_codes)
  moreover have "histogramTotal d = 0"
    using histogramTotal_run[OF d]
    by (simp add: inheritedStatus_points taggedPoint_def inHistogram_def countedStatus_def
        tagStatus_def protoKeys_def)
  ultimately show ?thesis by (simp add: d)
qed

text \<open>
  Claim C7, amended. When every \<^verbatim>\<open>http_reqs\<close> point of the log has a time and a
  non-empty status tag that is no member of \<^verbatim>\<open>Object.prototype\<close>, the total request
  count of the summary equals the sum of the per-status-code histogram counts.
\<close>

theorem request_totals:
  assumes "processK6Output ls = Inr d"
    and "totalRequests d = Some n"
    and "list_all (\<lambda>p. metric p = ''http_reqs'' \<longrightarrow> data_time p \<noteq> None \<and> countedStatus p)
           (pointsOf ls)"
  shows "n = histogramTotal d"
proof -
  have "filter inHistogram (pointsOf ls) = filter (\<lambda>p. metric p = ''http_reqs'') (pointsOf ls)"
    using assms(3) by (intro filter_cong) (auto simp: inHistogram_def list_all_iff)
  then show ?thesis
    using totalRequests_run[OF assms(1,2)] histogramTotal_run[OF assms(1)] by simp
qed

lemma taggedRequests_run:
  "case processK6Output taggedRequests of
     Inl err \<Rightarrow> False
   | Inr d \<Rightarrow> totalRequests d = Some 3"
proof -
  obtain d where d: "processK6Output taggedRequests = Inr d"
    using run_returns[of taggedRequests]
    by (auto simp: taggedRequests_points taggedPoint_def)
  have "totalRequests d = Some 3"
    using totalRequests_value[OF d]
    by (simp add: taggedRequests_points taggedPoint_def)
  then show ?thesis by (simp add: d)
qed

theorem request_totals_witness:
  "case processK6Output taggedRequests of
     Inl err \<Rightarrow> False
   | Inr d \<Rightarrow> totalRequests d = Some 3 \<and> histogramTotal d = 3"
proof -
  obtain d where d: "processK6Output taggedRequests = Inr d"
    and n: "totalRequests d = Some 3"
    using taggedRequests_run by (cases "processK6Output taggedRequests") auto
  have "list_all (\<lambda>p. metric p = ''http_reqs'' \<longrightarrow> data_time p \<noteq> None \<and> countedStatus p)
          (pointsOf taggedRequests)"
    by (simp add: taggedRequests_points taggedPoint_def countedStatus_def tagStatus_def
        protoKeys_def)
  from request_totals[OF d n this] show ?thesis using d n by simp
qed

section \<open>Evaluating the formatters and the example logs\<close>

lemma floor_rat_numeral:
  "\<lfloor>numeral a / numeral b :: rat\<rfloor> = numeral a div numeral b"
  using floor_divide_of_int_eq[of "numeral a" "numeral b", where ?'a = rat] by simp

lemma ceiling_rat_numeral:
  "\<lceil>numeral a / numeral b :: rat\<rceil> = - ((- numeral a) div numeral b)"
  unfolding ceiling_def using floor_divide_of_int_eq[of "- numeral a" "numeral b", where ?'a = rat]
  by simp

lemmas format_eval = formatDuration_def formatBytes_def fl_def overflowBound_def inf_of_def
  fixed2_def shortest2_def hundredths_def logFloor_def log1024_def sizes_def
  digitsOf_def Let_def floor_rat_numeral ceiling_rat_numeral

lemmas render_eval = generateHTML_def requestLines_def responseLine_def timeRows_def
  timeCells_def tableRow_def dataCells_def chartData_def statValue_def successRate_def
  ownMetrics_def objectEntries_def arrayIndexKey_def digitTable_def main_def exampleEnv_def
  format_eval

lemmas finish_eval = processK6Output_def finish_def lookupMetric_def duration_def
  responseTimeBuckets_def ownEntries_def protoKeys_def entryFields_def

lemma run_timeseries:
  "processK6Output ls = Inr d \<Longrightarrow>
   requests (timeseries d) = requests (tsd (processLines ls)) \<and>
   timestamps (timeseries d) = timestamps (tsd (processLines ls))"
  by (auto simp: processK6Output_def finish_def Let_def split: sum.splits)

lemma idleMetric_run:
  "processK6Output idleMetric =
     Inr \<lparr>r_metrics = [(''http_req_waiting'',
             \<lparr>mtype = ''trend'', contains = ''time'', values_m = [], stats = None,
              unit = Some ''time''\<rparr>)],
          testDuration = 0,
          timeseries = \<lparr>timestamps = [], vus = [], responseTime = [], requests = [],
              dataTransfer = [], statusCodes = [], responseTimeDistribution = ([], [])\<rparr>\<rparr>"
  by code_simp

lemma dataOnly_state:
  "processLines dataOnly =
     \<lparr>metrics = [(''data_sent'',
             \<lparr>mtype = ''counter'', contains = ''data'', values_m = [], stats = None,
              unit = Some ''data''\<rparr>)],
      samples = [(''data_sent'', [2048])],
      tsd = \<lparr>timestamps = [], vus = [], responseTime = [], requests = [],
              dataTransfer = [], statusCodes = [], responseTimeDistribution = ([], [])\<rparr>,
      successfulResponses = [], testStartTime = Some 1000, testEndTime = Some 1000,
      errorsLogged = 0\<rparr>"
  by code_simp

lemma dataOnly_run:
  "processK6Output dataOnly =
     Inr \<lparr>r_metrics = [(''data_sent'',
             \<lparr>mtype = ''counter'', contains = ''data'', values_m = [],
              stats = Some (statsOf [2048]), unit = Some ''data''\<rparr>)],
          testDuration = 0,
          timeseries = \<lparr>timestamps = [], vus = [], responseTime = [], requests = [],
              dataTransfer = [], statusCodes = [], responseTimeDistribution = ([], [])\<rparr>\<rparr>"
  by (simp add: finish_eval dataOnly_state)

lemma failedOnly_run:
  "processK6Output failedOnly =
     Inr \<lparr>r_metrics = [],
          testDuration = 0,
          timeseries = \<lparr>timestamps = [], vus = [], responseTime = [], requests = [],
              dataTransfer = [], statusCodes = [], responseTimeDistribution = ([], [])\<rparr>\<rparr>"
  by code_simp

lemma inheritedPoint_run:
  "processK6Output inheritedPoint =
     Inr \<lparr>r_metrics = [],
          testDuration = 0,
          timeseries = \<lparr>timestamps = [], vus = [], responseTime = [], requests = [],
              dataTransfer = [], statusCodes = [], responseTimeDistribution = ([], [])\<rparr>\<rparr>"
  by code_simp

section \<open>Requests per second\<close>

lemma fourRequests_state:
  "map fst (requests (tsd (processLines fourRequests))) = [11 / 10, 14 / 10, 19 / 10, 22 / 10] \<and>
   timestamps (tsd (processLines fourRequests)) = []"
  by code_simp

text \<open>
  Claim C2. The requests-per-second loop is to bucket the request events by the truncated
  second of their timestamps and, for the timestamps 1.1, 1.4, 1.9, 2.2, to emit the
  buckets (1, 3) and (2, 1). The loop emits a bucket only when the second changes, so
  the last bucket is never emitted: the result is (1, 3) alone. It also runs over
  \<^verbatim>\<open>timeseriesData.timestamps\<close>, which holds the timestamps of the \<^verbatim>\<open>vus\<close> points, not
  of the \<^verbatim>\<open>http_reqs\<close> points collected in \<^verbatim>\<open>timeseriesData.requests\<close>: for a log of
  four requests at these times the series is empty.
\<close>

theorem rps_last_bucket_missing:
  "rpsData [11 / 10, 14 / 10, 19 / 10, 22 / 10] = [(1, 3)] \<and>
   (case processK6Output fourRequests of
      Inl err \<Rightarrow> False
    | Inr d \<Rightarrow>
        map fst (requests (timeseries d)) = [11 / 10, 14 / 10, 19 / 10, 22 / 10] \<and>
        timestamps (timeseries d) = [] \<and>
        rpsData (timestamps (timeseries d)) = [])"
proof -
  have "rpsData [11 / 10, 14 / 10, 19 / 10, 22 / 10] = [(1, 3)]"
    by (simp add: rpsData_def floor_rat_numeral)
  moreover obtain d where d: "processK6Output fourRequests = Inr d"
    using run_returns[of fourRequests] by (auto simp: fourRequests_def taggedPoint_def)
  moreover have "map fst (requests (timeseries d)) = [11 / 10, 14 / 10, 19 / 10, 22 / 10]"
    "timestamps (timeseries d) = []"
    using run_timeseries[OF d] fourRequests_state by simp_all
  ultimately show ?thesis by (simp add: rpsData_def)
qed

section \<open>Undefined metrics\<close>

lemma undefined_metric_TypeError:
  assumes "p \<in> set (pointsOf ls)" and "passesFilter p"
    and "metric p \<notin> set (metricNames ls)"
    and "metric p \<notin> set protoKeys"
    and "metric p \<in> set entryFields \<longrightarrow> ''__proto__'' \<notin> set (metricNames ls)"
  shows "processK6Output ls = Inl TypeError"
proof -
  have "data_value p \<in> set (attributed (metric p) ls)"
    using assms(1,2,4) by (auto simp: attributed_def)
  then have ne: "attributed (metric p) ls \<noteq> []" by auto
  then have "map_of (samples (processLines ls)) (metric p) = Some (attributed (metric p) ls)"
    by (simp add: samples_lookup)
  then have m: "(metric p, attributed (metric p) ls) \<in> set (samples (processLines ls))"
    by (rule map_of_SomeD)
  have "lookupMetric (metrics (processLines ls)) (metric p) = Undefined"
    using assms(3,4,5) by (rule lookupMetric_processLines)
  from computeStatistics_throws[OF m ne this] show ?thesis
    by (simp add: processK6Output_def finish_def)
qed

text \<open>
  Claim C10, as stated, fails: a \<^verbatim>\<open>http_req_duration\<close> point without status 200 is
  dropped by the sample filter, so its metric is never looked up; the run succeeds
  although no line defines the metric.
\<close>

theorem undefined_metric_counterexample:
  "taggedPoint ''http_req_duration'' 1000 5 ''500'' \<in> set (pointsOf failedOnly) \<and>
   metricNames failedOnly = [] \<and>
   processK6Output failedOnly \<noteq> Inl TypeError \<and>
   fst (main exampleEnv (Some failedOnly)) = 0"
  by (simp add: failedOnly_run render_eval) (simp add: failedOnly_def)

text \<open>
  Nor does the run fail for an undefined metric whose name \<^verbatim>\<open>metrics\<close> inherits: a
  point of \<^verbatim>\<open>toString\<close> loses its sample when \<^verbatim>\<open>push\<close> throws inside the \<^verbatim>\<open>try\<close>, and
  a point of \<^verbatim>\<open>type\<close>, in a log that defines \<^verbatim>\<open>__proto__\<close>, has its statistics
  assigned to a field of the installed prototype. Both runs write a report.
\<close>

lemma inherited_metric_reports:
  "metricNames inheritedPoint = [] \<and>
   fst (main exampleEnv (Some inheritedPoint)) = 0 \<and>
   ''type'' \<notin> set (metricNames prototypeField) \<and>
   fst (main exampleEnv (Some prototypeField)) = 0"
  by (simp add: inheritedPoint_run prototypeField_run render_eval)
    (simp add: inheritedPoint_def prototypeField_def)

text \<open>
  Claim C10, amended. For every log containing a \<^verbatim>\<open>Point\<close> record that passes the
  sample filter (any metric but \<^verbatim>\<open>http_req_duration\<close>, or \<^verbatim>\<open>http_req_duration\<close> with
  status 200) and whose metric name appears in no \<^verbatim>\<open>Metric\<close> record, is no member of
  \<^verbatim>\<open>Object.prototype\<close> and, if the log defines a metric \<^verbatim>\<open>__proto__\<close>, is no field of
  an entry, the statistics computation throws a \<^verbatim>\<open>TypeError\<close>; the run exits with
  code 1 and writes no report.
\<close>

theorem undefined_metric_throws:
  assumes "p \<in> set (pointsOf ls)" and "passesFilter p"
    and "metric p \<notin> set (metricNames ls)"
    and "metric p \<notin> set protoKeys"
    and "metric p \<in> set entryFields \<longrightarrow> ''__proto__'' \<notin> set (metricNames ls)"
  shows "processK6Output ls = Inl TypeError \<and> main env (Some ls) = (1, None)"
  using undefined_metric_TypeError[OF assms] by (simp add: main_def)

theorem undefined_metric_throws_witness:
  "processK6Output orphanPoint = Inl TypeError \<and>
   main exampleEnv (Some orphanPoint) = (1, None)"
proof -
  have a: "untaggedPoint ''custom_trend'' 1000 5 \<in> set (pointsOf orphanPoint)"
    by (simp add: orphanPoint_def)
  have b: "passesFilter (untaggedPoint ''custom_trend'' 1000 5)"
    by (simp add: passesFilter_def untaggedPoint_def)
  have c: "metric (untaggedPoint ''custom_trend'' 1000 5) \<notin> set (metricNames orphanPoint)"
    by (simp add: orphanPoint_def)
  have d: "metric (untaggedPoint ''custom_trend'' 1000 5) \<notin> set protoKeys"
    by (simp add: untaggedPoint_def protoKeys_def)
  have e: "metric (untaggedPoint ''custom_trend'' 1000 5) \<in> set entryFields \<longrightarrow>
             ''__proto__'' \<notin> set (metricNames orphanPoint)"
    by (simp add: orphanPoint_def)
  from undefined_metric_throws[OF a b c d e, of exampleEnv] show ?thesis .
qed

section \<open>A missing request metric\<close>

text \<open>
  Claim C8. When \<^verbatim>\<open>http_reqs\<close> is absent from the snapshot, rendering is to complete,
  the data-transfer table included. The summary is guarded
  (\<^verbatim>\<open>metrics.http_reqs ? ... : ''\<close>), the data-transfer rows are not: each reads
  \<^verbatim>\<open>metrics.http_reqs.stats.count\<close>. For a log that defines and samples \<^verbatim>\<open>data_sent\<close>
  and has no \<^verbatim>\<open>http_reqs\<close>, \<^verbatim>\<open>generateHTML\<close> throws and the run exits with code 1.
\<close>

theorem missing_http_reqs_throws:
  "(case processK6Output dataOnly of
      Inl err \<Rightarrow> False
    | Inr d \<Rightarrow>
        map_of (r_metrics d) ''http_reqs'' = None \<and>
        requestLines env d = Inr [] \<and>
        generateHTML env d = Inl TypeError) \<and>
   main env (Some dataOnly) = (1, None)"
  by (simp add: main_def dataOnly_run generateHTML_def requestLines_def dataCells_def
      ownMetrics_def objectEntries_def arrayIndexKey_def digitTable_def)

section \<open>Rendering and the clock\<close>

lemma requestLines_now: "requestLines (env\<lparr>now := t\<rparr>) d = requestLines env d"
  by (simp add: requestLines_def Let_def split: option.splits)

lemma blank_generateHTML:
  "map_sum id (map blank) (generateHTML (env\<lparr>now := t\<rparr>) d) =
     (case requestLines env d of
        Inl err \<Rightarrow> Inl err
      | Inr reqs \<Rightarrow>
          (case dataRows d
                  (filter (\<lambda>kv. unit (snd kv) = Some ''data'') (ownMetrics (r_metrics d))) of
             Inl err \<Rightarrow> Inl err
           | Inr rows \<Rightarrow>
               Inr (map blank
                     ([Text ''<title>Load Test Report - '', Stamp [], Text ''</title>'',
                       Text ''<p>Test Start: '', Stamp [], Text ''</p>'',
                       Text (''<p>Test Duration: ''
                               @ formatDuration (Num (rat_of_int (testDuration d))) @ ''</p>'')]
                      @ reqs @ responseLine d @ timeRows d @ rows @ chartData d))))"
  by (simp add: generateHTML_def requestLines_now split: sum.splits)

text \<open>
  Claim C9. The renderer reads nothing but its argument, the locale and the clock, and
  what it computes from the clock are the two pieces marked \<open>Stamp\<close> (the title and the
  test-start line): two renderings of the same snapshot at different times either fail
  alike or agree piece by piece once the stamps are blanked.
\<close>

theorem render_deterministic:
  "map_sum id (map blank) (generateHTML (env\<lparr>now := s\<rparr>) d) =
   map_sum id (map blank) (generateHTML (env\<lparr>now := t\<rparr>) d)"
  by (simp only: blank_generateHTML)

theorem render_deterministic_witness:
  "map_sum id (map blank)
     (generateHTML (exampleEnv\<lparr>now := ''2024-01-01T00:00:00.000Z''\<rparr>)
        (projr (processK6Output idleMetric))) =
   map_sum id (map blank)
     (generateHTML (exampleEnv\<lparr>now := ''2025-06-30T12:00:00.000Z''\<rparr>)
        (projr (processK6Output idleMetric))) \<and>
   generateHTML (exampleEnv\<lparr>now := ''2024-01-01T00:00:00.000Z''\<rparr>)
        (projr (processK6Output idleMetric)) \<noteq>
   generateHTML (exampleEnv\<lparr>now := ''2025-06-30T12:00:00.000Z''\<rparr>)
        (projr (processK6Output idleMetric))"
proof -
  have "generateHTML (exampleEnv\<lparr>now := ''2024-01-01T00:00:00.000Z''\<rparr>)
        (projr (processK6Output idleMetric)) \<noteq>
   generateHTML (exampleEnv\<lparr>now := ''2025-06-30T12:00:00.000Z''\<rparr>)
        (projr (processK6Output idleMetric))"
    by (simp add: idleMetric_run render_eval)
  then show ?thesis
    using render_deterministic[where env = exampleEnv and s = "''2024-01-01T00:00:00.000Z''"
        and d = "projr (processK6Output idleMetric)" and t = "''2025-06-30T12:00:00.000Z''"]
    by blast
qed

section \<open>Metrics without samples\<close>

lemma timeCells_no_stats:
  "stats e = None \<Longrightarrow>
   timeCells e = [''NaN m'', ''NaN m'', ''NaN m'', ''NaN m'', ''NaN m'', ''NaN m'', ''NaN m'']"
  by (simp add: timeCells_def statValue_def formatDuration_def)

text \<open>
  Claim C4, as stated, fails: for a log that defines a time metric and has no point of
  it, the report shows no "no data" state; every statistics cell of the metric's row
  reads \<^verbatim>\<open>NaN m\<close>.
\<close>

theorem no_data_counterexample:
  "case processK6Output idleMetric of
     Inl err \<Rightarrow> False
   | Inr d \<Rightarrow>
       (case generateHTML exampleEnv d of
          Inl err \<Rightarrow> False
        | Inr doc \<Rightarrow>
            tableRow ''http_req_waiting''
              [''NaN m'', ''NaN m'', ''NaN m'', ''NaN m'', ''NaN m'', ''NaN m'', ''NaN m'']
              \<in> set doc)"
  unfolding idleMetric_run by (simp add: render_eval)

text \<open>
  Claim C4, amended. For every log in which a defined metric has no sample attributed to
  it and every sampled metric is defined, \<^verbatim>\<open>processK6Output\<close> returns, the metric's
  statistics are absent (the empty object), and the report has no "no data" state: the
  statistics cells rendered for such a metric in the response-time table all read
  \<^verbatim>\<open>NaN m\<close>.
\<close>

theorem no_samples_no_stats:
  assumes "m \<in> set (metricNames ls)"
    and "attributed m ls = []"
    and "list_all (\<lambda>p. passesFilter p \<longrightarrow> metric p \<in> set (metricNames ls)) (pointsOf ls)"
  shows "\<exists>d e. processK6Output ls = Inr d \<and> map_of (r_metrics d) m = Some e \<and>
           stats e = None \<and>
           timeCells e =
             [''NaN m'', ''NaN m'', ''NaN m'', ''NaN m'', ''NaN m'', ''NaN m'', ''NaN m'']"
proof -
  from run_returns[OF assms(3)] obtain d where d: "processK6Output ls = Inr d"
    by blast
  have "isDefined (processLines ls) m" using assms(1) by (simp add: isDefined_processLines)
  then obtain e where e: "map_of (metrics (processLines ls)) m = Some e"
    by (auto simp: isDefined_def)
  have l: "map_of (r_metrics d) m = Some e"
    using run_lookup[OF d, of m] e assms(2) by simp
  have n: "stats e = None" using noStats_lookup[OF e] .
  show ?thesis using d l n timeCells_no_stats[OF n] by blast
qed

theorem no_samples_no_stats_witness:
  "case processK6Output idleMetric of
     Inl err \<Rightarrow> False
   | Inr d \<Rightarrow>
       (case map_of (r_metrics d) ''http_req_waiting'' of
          None \<Rightarrow> False
        | Some e \<Rightarrow>
            stats e = None \<and>
            timeCells e =
              [''NaN m'', ''NaN m'', ''NaN m'', ''NaN m'', ''NaN m'', ''NaN m'', ''NaN m''])"
proof -
  have a: "''http_req_waiting'' \<in> set (metricNames idleMetric)"
    by (simp add: idleMetric_def)
  have b: "attributed ''http_req_waiting'' idleMetric = []"
    by (simp add: idleMetric_def attributed_def)
  have c: "list_all (\<lambda>p. passesFilter p \<longrightarrow> metric p \<in> set (metricNames idleMetric))
             (pointsOf idleMetric)"
    by (simp add: idleMetric_def)
  from no_samples_no_stats[OF a b c] obtain d e where
    "processK6Output idleMetric = Inr d" "map_of (r_metrics d) ''http_req_waiting'' = Some e"
    "stats e = None"
    "timeCells e = [''NaN m'', ''NaN m'', ''NaN m'', ''NaN m'', ''NaN m'', ''NaN m'', ''NaN m'']"
    by blast
  then show ?thesis by simp
qed

end
